theory Spec2Isabelle
  imports Main "HOL-Library.Char_ord" "HOL-Library.List_Lexorder"
begin

section \<open>JavaScript values used by doc.js\<close>

text \<open>
  Strings are lists of characters; a character stands for one code unit below 256.
  A value that may be \<^verbatim>\<open>undefined\<close> is an option, with \<open>None\<close> for \<^verbatim>\<open>undefined\<close>.
  The object \<^verbatim>\<open>entityCounter\<close> is only read at the key \<^verbatim>\<open>undefined\<close>, since no constructor hands a
  name to \<^verbatim>\<open>DOCJS.Entity\<close>, and the result of \<^verbatim>\<open>getUnparsedLines2\<close> has line numbers as keys and is
  read with \<^verbatim>\<open>for..in\<close>; both are modelled by their own keys. The index \<^verbatim>\<open>name2class\<close> is read at
  names taken from the comments, so its model has the members that a plain object inherits as
  well.
\<close>

text \<open>Number to string conversion of a non-negative integer, as \<^verbatim>\<open>"Line "+j\<close> performs it.\<close>

definition digit_char :: "nat \<Rightarrow> char" where
  "digit_char n = ''0123456789'' ! n"

fun show_nat :: "nat \<Rightarrow> string" where
  "show_nat n = (if n < 10 then [digit_char n] else show_nat (n div 10) @ [digit_char (n mod 10)])"

declare show_nat.simps [simp del]

text \<open>\<^verbatim>\<open>s.split("\n")\<close>: the pieces between newlines; the empty string gives one empty piece.\<close>

fun split_lines :: "string \<Rightarrow> string list" where
  "split_lines [] = [[]]"
| "split_lines (c # cs) =
     (if c = CHR 0x0A then [] # split_lines cs
      else (case split_lines cs of l # ls \<Rightarrow> (c # l) # ls | [] \<Rightarrow> [[c]]))"

section \<open>Regular expressions\<close>

text \<open>
  The tag grammars are JavaScript regular expressions. They are kept as syntax trees and run by
  a backtracking matcher that lists the ways a pattern can match in the order in which the
  engine tries them, so that the first element is the match the engine reports.
\<close>

datatype cclass =
    Lit char
  | Dot
  | Space
  | NotSpace
  | OneOf "char list"

text \<open>\<^verbatim>\<open>\s\<close> below code unit 256: tab, line feed, vertical tab, form feed, carriage return, space,
  no-break space. \<^verbatim>\<open>.\<close> is everything but the line terminators.\<close>

definition is_space :: "char \<Rightarrow> bool" where
  "is_space c = (c \<in> set [CHR 0x09, CHR 0x0A, CHR 0x0B, CHR 0x0C, CHR 0x0D, CHR 0x20, CHR 0xA0])"

fun cmatch :: "cclass \<Rightarrow> char \<Rightarrow> bool" where
  "cmatch (Lit a) c = (c = a)"
| "cmatch Dot c = (c \<noteq> CHR 0x0A \<and> c \<noteq> CHR 0x0D)"
| "cmatch Space c = is_space c"
| "cmatch NotSpace c = (\<not> is_space c)"
| "cmatch (OneOf cs) c = (c \<in> set cs)"

datatype regex =
    Atom cclass
  | Eps
  | Eol
  | Seq regex regex
  | Alt regex regex
  | Group nat regex
  | Rep nat "nat option" regex

type_synonym captures = "nat \<Rightarrow> string option"
type_synonym mstate = "string \<times> captures"

fun groups :: "regex \<Rightarrow> nat list" where
  "groups (Atom c) = []"
| "groups Eps = []"
| "groups Eol = []"
| "groups (Seq a b) = groups a @ groups b"
| "groups (Alt a b) = groups a @ groups b"
| "groups (Group k r) = k # groups r"
| "groups (Rep mn mx r) = groups r"

fun clear :: "nat list \<Rightarrow> captures \<Rightarrow> captures" where
  "clear [] cp = cp"
| "clear (k # ks) cp = clear ks (cp(k := None))"

fun rsize :: "regex \<Rightarrow> nat" where
  "rsize (Atom c) = 1"
| "rsize Eps = 1"
| "rsize Eol = 1"
| "rsize (Seq a b) = rsize a + rsize b + 1"
| "rsize (Alt a b) = rsize a + rsize b + 1"
| "rsize (Group k r) = rsize r + 1"
| "rsize (Rep mn mx r) = rsize r + 1"

fun rep_min :: "regex \<Rightarrow> nat" where
  "rep_min (Rep mn mx r) = mn"
| "rep_min r = 0"

text \<open>
  A state is the input still to be read together with the captures so far. \<open>Eol\<close> is \<^verbatim>\<open>$\<close>
  without the multiline flag. \<open>Rep mn mx r\<close> is the greedy quantifier \<^verbatim>\<open>r{mn,mx}\<close> (\<open>None\<close> for
  no upper bound): each round clears the captures of \<open>r\<close>, a round that reads nothing once the
  minimum is reached is given up, and the choice of stopping comes after the choice of going on.
\<close>

function ms :: "regex \<Rightarrow> mstate \<Rightarrow> mstate list" where
  "ms (Atom c) (s, cp) =
     (case s of [] \<Rightarrow> [] | x # xs \<Rightarrow> if cmatch c x then [(xs, cp)] else [])"
| "ms Eps (s, cp) = [(s, cp)]"
| "ms Eol (s, cp) = (if s = [] then [(s, cp)] else [])"
| "ms (Seq a b) (s, cp) = concat (map (ms b) (ms a (s, cp)))"
| "ms (Alt a b) (s, cp) = ms a (s, cp) @ ms b (s, cp)"
| "ms (Group k r) (s, cp) =
     map (\<lambda>y. (fst y, (snd y)(k \<mapsto> take (length s - length (fst y)) s))) (ms r (s, cp))"
| "ms (Rep mn mx r) (s, cp) =
     (if mx = Some 0 then [(s, cp)]
      else
        (concat (map (\<lambda>y. if mn = 0 \<and> length s \<le> length (fst y) then []
                           else ms (Rep (mn - 1) (map_option (\<lambda>m. m - 1) mx) r) y)
                     (ms r (s, clear (groups r) cp))))
        @ (if mn = 0 then [(s, cp)] else []))"
  by pat_completeness auto
termination
  by (relation "measures [\<lambda>(r, x). rsize r, \<lambda>(r, x). rep_min r, \<lambda>(r, x). length (fst x)]")
     auto

text \<open>\<^verbatim>\<open>line.match(re)\<close> for a regular expression without the global flag: the leftmost start
  at which the pattern matches, with the matched text and the captures.\<close>

fun re_match :: "regex \<Rightarrow> string \<Rightarrow> (string \<times> captures) option" where
  "re_match r [] =
     (case ms r ([], \<lambda>k. None) of y # ys \<Rightarrow> Some ([], snd y) | [] \<Rightarrow> None)"
| "re_match r (c # cs) =
     (case ms r (c # cs, \<lambda>k. None) of
        y # ys \<Rightarrow> Some (take (length (c # cs) - length (fst y)) (c # cs), snd y)
      | [] \<Rightarrow> re_match r cs)"

fun lits :: "string \<Rightarrow> regex" where
  "lits [] = Eps"
| "lits (c # cs) = Seq (Atom (Lit c)) (lits cs)"

fun cat :: "regex list \<Rightarrow> regex" where
  "cat [] = Eps"
| "cat (r # rs) = Seq r (cat rs)"

abbreviation star :: "regex \<Rightarrow> regex" where
  "star r \<equiv> Rep 0 None r"

abbreviation plus_re :: "regex \<Rightarrow> regex" where
  "plus_re r \<equiv> Rep 1 None r"


section \<open>Commands\<close>

text \<open>
  A command is the value a tag parser extracts from one tag occurrence. The source keeps the
  constructor arguments in closures; here they are the fields. A field that the parser fills
  straight from a capture of its regular expression is an option, since a capture may be
  \<^verbatim>\<open>undefined\<close>. The link of a command back to its block is not kept.
\<close>

datatype AuthorCommand = AuthorCommand (author_content: string)
datatype BriefCommand = BriefCommand (brief_content: string)
datatype ClassCommand = ClassCommand (class_name: string)
datatype DescriptionCommand = DescriptionCommand (desc_content: string)
datatype EventCommand = EventCommand (event_name: "string option") (event_description: string)
datatype ExampleCommand = ExampleCommand (example_content: string)
datatype ExtendsCommand = ExtendsCommand (extends_className: string)
datatype FileCommand = FileCommand (file_name: string)
datatype FunctionCommand = FunctionCommand (func_name: string) (func_description: "string option")
datatype LibraryCommand = LibraryCommand (library_name: string)
datatype MemberofCommand = MemberofCommand (memberof_className: "string option")
datatype MethodCommand = MethodCommand (method_name: string)
datatype PageCommand = PageCommand (page_name: string)
datatype ParamCommand =
  ParamCommand (param_dataType: "string option") (param_name: "string option")
    (param_description: "string option")
datatype PropertyCommand =
  PropertyCommand (property_dataType: "string option") (property_name: "string option")
    (property_desc: "string option")
datatype ReturnCommand = ReturnCommand (return_dataType: "string option") (return_description: "string option")
datatype SeeCommand = SeeCommand (see_text: string)
datatype TodoCommand = TodoCommand (todo_content: string)
datatype VersionCommand = VersionCommand (version_content: string)


text \<open>\<^verbatim>\<open>ParamCommand.getDescription\<close> is \<^verbatim>\<open>description ? description : false\<close>; \<open>None\<close> stands
  for \<^verbatim>\<open>false\<close>.\<close>

definition param_getDescription :: "ParamCommand \<Rightarrow> string option" where
  "param_getDescription c =
     (case param_description c of None \<Rightarrow> None | Some d \<Rightarrow> if d = [] then None else Some d)"

text \<open>String conversion of a value that may be \<^verbatim>\<open>undefined\<close>, as in string concatenation and
  in property keys.\<close>

definition js_str :: "string option \<Rightarrow> string" where
  "js_str v = (case v of None \<Rightarrow> ''undefined'' | Some s \<Rightarrow> s)"

section \<open>Blocks and error reports\<close>

record Globals =
  blockIdCounter :: nat
  errorReportIdCounter :: nat
  globalEntityCounter :: nat
  entityCounter :: "string \<Rightarrow> nat option"

definition init_Globals :: Globals where
  "init_Globals = \<lparr> blockIdCounter = 0, errorReportIdCounter = 0, globalEntityCounter = 0,
                    entityCounter = (\<lambda>k. None) \<rparr>"

record ErrorReport =
  er_lineNumber :: "nat option"
  er_file :: string
  er_message :: string
  er_id :: nat

definition new_ErrorReport :: "string \<Rightarrow> nat option \<Rightarrow> string \<Rightarrow> Globals \<Rightarrow> ErrorReport \<times> Globals" where
  "new_ErrorReport filename lineNumber message g =
     (\<lparr> er_lineNumber = lineNumber, er_file = filename, er_message = message,
        er_id = errorReportIdCounter g + 1 \<rparr>,
      g\<lparr> errorReportIdCounter := errorReportIdCounter g + 1 \<rparr>)"

text \<open>
  \<open>parsedLines\<close> is the private array of the block; an entry \<open>None\<close> is a \<^verbatim>\<open>NaN\<close>, which
  \<^verbatim>\<open>parseInt\<close> yields for an argument that is no number.
\<close>

record Block =
  block_id :: nat
  rawDiff :: nat
  filename :: string
  src :: string
  rawSrc :: string
  lineNumber :: nat
  parsedLines :: "nat option list"
  author :: "AuthorCommand list"
  brief :: "BriefCommand list"
  classs :: "ClassCommand list"
  desc :: "DescriptionCommand list"
  event :: "EventCommand list"
  example :: "ExampleCommand list"
  extends :: "ExtendsCommand list"
  file' :: "FileCommand list"
  func :: "FunctionCommand list"
  library :: "LibraryCommand list"
  memberof :: "MemberofCommand list"
  method' :: "MethodCommand list"
  page :: "PageCommand list"
  param :: "ParamCommand list"
  property :: "PropertyCommand list"
  ret :: "ReturnCommand list"
  see :: "SeeCommand list"
  todo :: "TodoCommand list"
  version :: "VersionCommand list"

fun starts_with :: "string \<Rightarrow> string \<Rightarrow> bool" where
  "starts_with [] s = True"
| "starts_with (c # cs) [] = False"
| "starts_with (c # cs) (d # ds) = (c = d \<and> starts_with cs ds)"

text \<open>\<^verbatim>\<open>s.indexOf(sub)\<close>, with \<open>None\<close> for \<^verbatim>\<open>-1\<close>.\<close>

fun index_of :: "string \<Rightarrow> string \<Rightarrow> nat option" where
  "index_of sub [] = (if sub = [] then Some 0 else None)"
| "index_of sub (c # cs) =
     (if starts_with sub (c # cs) then Some 0 else map_option Suc (index_of sub cs))"

definition count_newlines :: "string \<Rightarrow> nat" where
  "count_newlines s = length (filter (\<lambda>c. c = CHR 0x0A) s)"

definition new_Block :: "string \<Rightarrow> string \<Rightarrow> nat \<Rightarrow> Globals \<Rightarrow> Block \<times> Globals" where
  "new_Block s raw ln g =
     (\<lparr> block_id = blockIdCounter g + 1,
        rawDiff = (case index_of s raw of None \<Rightarrow> 0 | Some idx \<Rightarrow> count_newlines (take idx raw)),
        filename = [], src = s, rawSrc = raw, lineNumber = ln, parsedLines = [],
        author = [], brief = [], classs = [], desc = [], event = [], example = [],
        extends = [], file' = [], func = [], library = [], memberof = [], method' = [],
        page = [], param = [], property = [], ret = [], see = [], todo = [], version = [] \<rparr>,
      g\<lparr> blockIdCounter := blockIdCounter g + 1 \<rparr>)"

definition localToGlobalLineNumber :: "Block \<Rightarrow> nat \<Rightarrow> nat" where
  "localToGlobalLineNumber b n = n + lineNumber b + rawDiff b + 1"

fun lineIsParsed :: "Block \<Rightarrow> nat option \<Rightarrow> bool" where
  "lineIsParsed b None = False"
| "lineIsParsed b (Some n) = (Some n \<in> set (parsedLines b))"

definition markLineAsParsed :: "Block \<Rightarrow> nat option \<Rightarrow> Block" where
  "markLineAsParsed b n =
     (if \<not> lineIsParsed b n then b\<lparr> parsedLines := parsedLines b @ [n] \<rparr> else b)"

definition getNumLines :: "Block \<Rightarrow> nat" where
  "getNumLines b = length (split_lines (src b))"

text \<open>\<^verbatim>\<open>getLine\<close> is only called with an index below \<^verbatim>\<open>getNumLines\<close>.\<close>

definition getLine :: "Block \<Rightarrow> nat \<Rightarrow> string" where
  "getLine b i = split_lines (src b) ! i"

text \<open>
  The object \<^verbatim>\<open>unparsed\<close> of \<^verbatim>\<open>getUnparsedLines2\<close> has integer keys, which \<^verbatim>\<open>for ... in\<close>
  enumerates in ascending order: it is a list of key and value pairs with ascending keys, and
  an assignment overwrites the value of a key that is present.
\<close>

fun obj_put :: "(nat \<times> 'v) list \<Rightarrow> nat \<Rightarrow> 'v \<Rightarrow> (nat \<times> 'v) list" where
  "obj_put [] k v = [(k, v)]"
| "obj_put ((k', v') # kvs) k v =
     (if k = k' then (k, v) # kvs
      else if k < k' then (k, v) # (k', v') # kvs
      else (k', v') # obj_put kvs k v)"

function getUnparsedLines2_loop ::
  "Block \<Rightarrow> bool \<Rightarrow> nat \<Rightarrow> nat \<Rightarrow> (nat \<times> string) list \<Rightarrow> (nat \<times> string) list" where
  "getUnparsedLines2_loop b globalLineNumbers i n unparsed =
     (if i < n then
        getUnparsedLines2_loop b globalLineNumbers (i + 1) n
          (if \<not> lineIsParsed b (Some i) then
             (if globalLineNumbers
              then obj_put unparsed (localToGlobalLineNumber b i) (getLine b i)
              else obj_put unparsed i (getLine b i))
           else unparsed)
      else unparsed)"
  by pat_completeness auto
termination
  by (relation "measure (\<lambda>(b, g, i, n, u). n - i)") auto

declare getUnparsedLines2_loop.simps [simp del]

definition getUnparsedLines2 :: "Block \<Rightarrow> bool \<Rightarrow> (nat \<times> string) list" where
  "getUnparsedLines2 b globalLineNumbers =
     getUnparsedLines2_loop b globalLineNumbers 0 (getNumLines b) []"

section \<open>Tag parsers\<close>

text \<open>
  Every single-line tag parser of the source is the same loop over the lines that were not
  consumed when it started: a line that matches the grammar of the tag gives a command and is
  marked consumed; a line that only contains the tag name gives an error report and stays
  unconsumed. The loop is written once, with the grammar, the test for the tag name and the
  text of the report as arguments. An exception leaves the loop at once: the \<^verbatim>\<open>Error\<close> that a
  constructor throws, with its message, or a \<^verbatim>\<open>TypeError\<close> of the engine (a property read from
  \<^verbatim>\<open>undefined\<close>, a call of a value that is no function), whose message is the engine's.
\<close>

datatype exn = Error string | TypeError

fun parse_lines ::
  "(string \<Rightarrow> (exn + 'c) option) \<Rightarrow> (string \<Rightarrow> bool) \<Rightarrow> string \<Rightarrow> (nat \<times> string) list \<Rightarrow>
   'c list \<times> Block \<times> ErrorReport list \<times> Globals \<Rightarrow>
   exn + ('c list \<times> Block \<times> ErrorReport list \<times> Globals)" where
  "parse_lines mk bad msg [] st = Inr st"
| "parse_lines mk bad msg ((j, line) # rest) (commands, block, errors, g) =
     (case mk line of
        Some (Inl e) \<Rightarrow> Inl e
      | Some (Inr command) \<Rightarrow>
          parse_lines mk bad msg rest
            (commands @ [command], markLineAsParsed block (Some j), errors, g)
      | None \<Rightarrow>
          if bad line then
            (case new_ErrorReport (filename block) (Some (localToGlobalLineNumber block j))
                    (msg @ line) g of
               (report, g') \<Rightarrow>
                 parse_lines mk bad msg rest (commands, block, errors @ [report], g'))
          else parse_lines mk bad msg rest (commands, block, errors, g))"

definition contains_re :: "regex \<Rightarrow> string \<Rightarrow> bool" where
  "contains_re r line = (re_match r line \<noteq> None)"


text \<open>
  The parsers of \<^verbatim>\<open>@param\<close> and \<^verbatim>\<open>@property\<close> declare \<^verbatim>\<open>desc\<close> with \<^verbatim>\<open>var\<close> inside the loop and
  assign it only when the line has a description. The declaration belongs to the whole function
  and resets nothing, so on a line without a description \<^verbatim>\<open>desc\<close> still has the value that the
  last line with a description gave it. For these two parsers the loop carries the variable,
  here \<open>dsc\<close>, which is \<^verbatim>\<open>undefined\<close> at the start.
\<close>

fun parse_lines_var ::
  "(string option \<Rightarrow> string \<Rightarrow> (exn + 'c \<times> string option) option) \<Rightarrow> (string \<Rightarrow> bool) \<Rightarrow>
   string \<Rightarrow> (nat \<times> string) list \<Rightarrow> string option \<Rightarrow>
   'c list \<times> Block \<times> ErrorReport list \<times> Globals \<Rightarrow>
   exn + (string option \<times> 'c list \<times> Block \<times> ErrorReport list \<times> Globals)" where
  "parse_lines_var mk bad msg [] dsc st = Inr (dsc, st)"
| "parse_lines_var mk bad msg ((j, line) # rest) dsc (commands, block, errors, g) =
     (case mk dsc line of
        Some (Inl e) \<Rightarrow> Inl e
      | Some (Inr (command, dsc')) \<Rightarrow>
          parse_lines_var mk bad msg rest dsc'
            (commands @ [command], markLineAsParsed block (Some j), errors, g)
      | None \<Rightarrow>
          if bad line then
            (case new_ErrorReport (filename block) (Some (localToGlobalLineNumber block j))
                    (msg @ line) g of
               (report, g') \<Rightarrow>
                 parse_lines_var mk bad msg rest dsc (commands, block, errors @ [report], g'))
          else parse_lines_var mk bad msg rest dsc (commands, block, errors, g))"

subsection \<open>\<^verbatim>\<open>@event\<close>\<close>




subsection \<open>\<^verbatim>\<open>@function\<close>\<close>





subsection \<open>\<^verbatim>\<open>@memberof\<close>\<close>

text \<open>\<^verbatim>\<open>/(@memberOf)|(@memberof)\s+([^\s]*)$/\<close>: the alternation binds weaker than the
  concatenation, so the first alternative is \<^verbatim>\<open>(@memberOf)\<close> alone. A match always has
  \<^verbatim>\<open>result.length\<close> 4.\<close>

definition memberof_re :: regex where
  "memberof_re =
     Alt (Group 1 (lits ''@memberOf''))
         (cat [Group 2 (lits ''@memberof''), plus_re (Atom Space),
               Group 3 (star (Atom NotSpace)), Eol])"

definition memberof_mk :: "string \<Rightarrow> (exn + MemberofCommand) option" where
  "memberof_mk line =
     (case re_match memberof_re line of
        None \<Rightarrow> None
      | Some result \<Rightarrow> Some (Inr (MemberofCommand (snd result 3))))"

definition MemberofCommand_parse ::
  "Block \<Rightarrow> ErrorReport list \<Rightarrow> Globals \<Rightarrow>
   exn + (MemberofCommand list \<times> Block \<times> ErrorReport list \<times> Globals)" where
  "MemberofCommand_parse block errors g =
     parse_lines memberof_mk
       (contains_re (cat [lits ''@member'', Atom (OneOf ''oO''), Atom (Lit CHR ''f'')]))
       (''Line contained @memberof but did not match the command spec '' @ [CHR 0x22] @ ''@memberof className'' @ [CHR 0x22] @ ''. The input: '')
       (getUnparsedLines2 block False) ([], block, errors, g)"

subsection \<open>\<^verbatim>\<open>@param\<close>\<close>




subsection \<open>\<^verbatim>\<open>@property\<close>\<close>




subsection \<open>\<^verbatim>\<open>@return\<close>\<close>




section \<open>Entities\<close>

text \<open>
  \<^verbatim>\<open>DOCJS.Entity(block,entityName)\<close> draws the id of the entity from \<^verbatim>\<open>entityCounter[entityName]\<close>
  and its global id from \<^verbatim>\<open>globalEntityCounter\<close>. An argument that is left out is
  \<^verbatim>\<open>undefined\<close>, and as a property key \<^verbatim>\<open>undefined\<close> is the string \<^verbatim>\<open>"undefined"\<close>.
\<close>

record Entity =
  ent_block :: "Block list"
  ent_id :: nat
  ent_globalId :: nat

definition new_Entity :: "Block list \<Rightarrow> string option \<Rightarrow> Globals \<Rightarrow> Entity \<times> Globals" where
  "new_Entity block entityName g =
     (let key = js_str entityName;
          n = (case entityCounter g key of None \<Rightarrow> 0 | Some k \<Rightarrow> k + 1)
      in (\<lparr> ent_block = block, ent_id = n, ent_globalId = globalEntityCounter g + 1 \<rparr>,
          g\<lparr> entityCounter := (entityCounter g)(key \<mapsto> n),
             globalEntityCounter := globalEntityCounter g + 1 \<rparr>))"

text \<open>Every entity constructor of the source calls \<^verbatim>\<open>DOCJS.Entity.call(this,block)\<close>, with no
  entity name.\<close>

record FunctionEntity = Entity +
  fe_functionCommand :: FunctionCommand
  fe_paramCommands :: "ParamCommand list"
  fe_returnCommand :: "ReturnCommand option"
  fe_briefCommand :: "BriefCommand option"
  fe_descriptionCommand :: "DescriptionCommand option"
  fe_exampleCommand :: "ExampleCommand list"

definition new_FunctionEntity ::
  "Block list \<Rightarrow> FunctionCommand \<Rightarrow> ParamCommand list \<Rightarrow> ReturnCommand option \<Rightarrow>
   BriefCommand option \<Rightarrow> DescriptionCommand option \<Rightarrow> ExampleCommand list \<Rightarrow> Globals \<Rightarrow>
   FunctionEntity \<times> Globals" where
  "new_FunctionEntity block functionCommand paramCommands returnCommand briefCommand
      descriptionCommand exampleCommand g =
     (case new_Entity block None g of
        (e, g') \<Rightarrow>
          (Entity.extend e
             \<lparr> fe_functionCommand = functionCommand, fe_paramCommands = paramCommands,
               fe_returnCommand = returnCommand, fe_briefCommand = briefCommand,
               fe_descriptionCommand = descriptionCommand,
               fe_exampleCommand = exampleCommand \<rparr>, g'))"

definition function_getName :: "FunctionEntity \<Rightarrow> string" where
  "function_getName e = func_name (fe_functionCommand e)"

record LibraryEntity = Entity +
  le_libraryCommand :: LibraryCommand
  le_versionCommand :: "VersionCommand option"
  le_briefCommand :: "BriefCommand option"
  le_descriptionCommand :: "DescriptionCommand option"

definition new_LibraryEntity ::
  "Block list \<Rightarrow> LibraryCommand \<Rightarrow> VersionCommand option \<Rightarrow> BriefCommand option \<Rightarrow>
   DescriptionCommand option \<Rightarrow> Globals \<Rightarrow> LibraryEntity \<times> Globals" where
  "new_LibraryEntity block libraryCommand versionCommand briefCommand descriptionCommand g =
     (case new_Entity block None g of
        (e, g') \<Rightarrow>
          (Entity.extend e
             \<lparr> le_libraryCommand = libraryCommand, le_versionCommand = versionCommand,
               le_briefCommand = briefCommand, le_descriptionCommand = descriptionCommand \<rparr>,
           g'))"

record MethodEntity = Entity +
  me_methodCommand :: MethodCommand
  me_memberofCommand :: MemberofCommand
  me_paramCommands :: "ParamCommand list"
  me_briefCommand :: "BriefCommand option"
  me_returnCommand :: "ReturnCommand option"

definition new_MethodEntity ::
  "Block list \<Rightarrow> MethodCommand \<Rightarrow> MemberofCommand \<Rightarrow> ParamCommand list \<Rightarrow>
   BriefCommand option \<Rightarrow> ReturnCommand option \<Rightarrow> Globals \<Rightarrow> MethodEntity \<times> Globals" where
  "new_MethodEntity block methodCommand memberofCommand paramCommands briefCommand
      returnCommand g =
     (case new_Entity block None g of
        (e, g') \<Rightarrow>
          (Entity.extend e
             \<lparr> me_methodCommand = methodCommand, me_memberofCommand = memberofCommand,
               me_paramCommands = paramCommands, me_briefCommand = briefCommand,
               me_returnCommand = returnCommand \<rparr>, g'))"

definition method_getName :: "MethodEntity \<Rightarrow> string" where
  "method_getName m = method_name (me_methodCommand m)"

definition method_getClassName :: "MethodEntity \<Rightarrow> string option" where
  "method_getClassName m = memberof_className (me_memberofCommand m)"

record PropertyEntity = Entity +
  pe_propertyCommand :: PropertyCommand
  pe_memberofCommand :: MemberofCommand
  pe_briefCommand :: "BriefCommand option"
  pe_descriptionCommand :: "DescriptionCommand option"

definition new_PropertyEntity ::
  "Block list \<Rightarrow> PropertyCommand \<Rightarrow> MemberofCommand \<Rightarrow> BriefCommand option \<Rightarrow>
   DescriptionCommand option \<Rightarrow> Globals \<Rightarrow> PropertyEntity \<times> Globals" where
  "new_PropertyEntity block propertyCommand memberofCommand briefCommand descriptionCommand g =
     (case new_Entity block None g of
        (e, g') \<Rightarrow>
          (Entity.extend e
             \<lparr> pe_propertyCommand = propertyCommand, pe_memberofCommand = memberofCommand,
               pe_briefCommand = briefCommand, pe_descriptionCommand = descriptionCommand \<rparr>,
           g'))"

definition property_getName :: "PropertyEntity \<Rightarrow> string option" where
  "property_getName p = property_name (pe_propertyCommand p)"

definition property_getClassName :: "PropertyEntity \<Rightarrow> string option" where
  "property_getClassName p = memberof_className (pe_memberofCommand p)"

record TodoEntity = Entity +
  te_todoCommand :: TodoCommand

definition new_TodoEntity :: "Block list \<Rightarrow> TodoCommand \<Rightarrow> Globals \<Rightarrow> TodoEntity \<times> Globals" where
  "new_TodoEntity block todoCommand g =
     (case new_Entity block None g of
        (e, g') \<Rightarrow> (Entity.extend e \<lparr> te_todoCommand = todoCommand \<rparr>, g'))"

text \<open>The constructor of a class entity throws when its brief command is neither a
  \<^verbatim>\<open>BriefCommand\<close> nor \<^verbatim>\<open>undefined\<close>; the type of the argument leaves no other value.\<close>

record ClassEntity = Entity +
  ce_classCommand :: ClassCommand
  ce_paramCommands :: "ParamCommand list"
  ce_extendsCommand :: "ExtendsCommand option"
  ce_briefCommand :: "BriefCommand option"
  ce_descriptionCommand :: "DescriptionCommand option"
  ce_exampleCommands :: "ExampleCommand list"
  ce_methodEntities :: "MethodEntity list"
  ce_propertyEntities :: "PropertyEntity list"

definition new_ClassEntity ::
  "Block list \<Rightarrow> ClassCommand \<Rightarrow> ParamCommand list \<Rightarrow> ExtendsCommand option \<Rightarrow>
   BriefCommand option \<Rightarrow> DescriptionCommand option \<Rightarrow> ExampleCommand list \<Rightarrow> Globals \<Rightarrow>
   ClassEntity \<times> Globals" where
  "new_ClassEntity block classCommand paramCommands extendsCommand briefCommand
      descriptionCommand exampleCommands g =
     (case new_Entity block None g of
        (e, g') \<Rightarrow>
          (Entity.extend e
             \<lparr> ce_classCommand = classCommand, ce_paramCommands = paramCommands,
               ce_extendsCommand = extendsCommand, ce_briefCommand = briefCommand,
               ce_descriptionCommand = descriptionCommand,
               ce_exampleCommands = exampleCommands,
               ce_methodEntities = [], ce_propertyEntities = [] \<rparr>, g'))"

definition class_getName :: "ClassEntity \<Rightarrow> string" where
  "class_getName c = class_name (ce_classCommand c)"

text \<open>\<^verbatim>\<open>extendsCommand ? extendsCommand.getClassName() : false\<close>, with \<open>None\<close> for \<^verbatim>\<open>false\<close>.\<close>

definition getExtendedClassName :: "ClassEntity \<Rightarrow> string option" where
  "getExtendedClassName c =
     (case ce_extendsCommand c of None \<Rightarrow> None | Some ec \<Rightarrow> Some (extends_className ec))"

definition addMethod :: "ClassEntity \<Rightarrow> MethodEntity \<Rightarrow> ClassEntity" where
  "addMethod c m = c\<lparr> ce_methodEntities := ce_methodEntities c @ [m] \<rparr>"

definition addProperty :: "ClassEntity \<Rightarrow> PropertyEntity \<Rightarrow> ClassEntity" where
  "addProperty c p = c\<lparr> ce_propertyEntities := ce_propertyEntities c @ [p] \<rparr>"

record PageEntity = Entity +
  pg_pageCommand :: PageCommand
  pg_content :: string

definition new_PageEntity ::
  "Block list \<Rightarrow> PageCommand \<Rightarrow> string \<Rightarrow> Globals \<Rightarrow> PageEntity \<times> Globals" where
  "new_PageEntity block pageCommand content g =
     (case new_Entity block None g of
        (e, g') \<Rightarrow> (Entity.extend e \<lparr> pg_pageCommand = pageCommand, pg_content = content \<rparr>, g'))"

definition page_getName :: "PageEntity \<Rightarrow> string" where
  "page_getName e = page_name (pg_pageCommand e)"

section \<open>The documentation and its index\<close>

text \<open>
  The index \<^verbatim>\<open>name2class\<close> holds references to class entities that also stand in \<^verbatim>\<open>classes\<close>,
  and \<^verbatim>\<open>addMethod\<close> changes the entity in place. A reference to a class entity is its global
  id, which the entity constructor gives to one entity only; the entity itself is looked up in
  \<^verbatim>\<open>classes\<close>, where every entity of the index stands.

  The index is a plain object \<^verbatim>\<open>{}\<close>. \<^verbatim>\<open>name2class[n] = c\<close> makes \<open>n\<close> an own property, except for
  the name \<^verbatim>\<open>__proto__\<close>: that assignment runs the setter which \<^verbatim>\<open>Object.prototype\<close> has for this
  name and makes the class entity \<open>c\<close> the prototype of the index. \<^verbatim>\<open>name2class[n]\<close> reads an own
  property if there is one, and the inherited member of that name otherwise: a member of the
  class entity that was made the prototype, if any, and then a member of \<^verbatim>\<open>Object.prototype\<close>.
  The members are those of the language standard with its annex for browsers, in an
  environment that has added none.
\<close>

record Index =
  ix_own :: "string \<Rightarrow> nat option"
  ix_proto :: "nat option"

definition new_Index :: Index where
  "new_Index = \<lparr> ix_own = (\<lambda>n. None), ix_proto = None \<rparr>"

definition index_put :: "Index \<Rightarrow> string \<Rightarrow> nat \<Rightarrow> Index" where
  "index_put ix n r =
     (if n = ''__proto__'' then ix\<lparr> ix_proto := Some r \<rparr>
      else ix\<lparr> ix_own := (ix_own ix)(n \<mapsto> r) \<rparr>)"

text \<open>The members of \<^verbatim>\<open>Object.prototype\<close> apart from \<^verbatim>\<open>__proto__\<close>: all of them are functions.\<close>

definition Object_prototype_members :: "string list" where
  "Object_prototype_members =
     [''constructor'', ''hasOwnProperty'', ''isPrototypeOf'', ''propertyIsEnumerable'',
      ''toLocaleString'', ''toString'', ''valueOf'', ''__defineGetter__'', ''__defineSetter__'',
      ''__lookupGetter__'', ''__lookupSetter__'']"

text \<open>
  The properties that the constructor of a class entity assigns, apart from the numbers \<^verbatim>\<open>id\<close>
  and \<^verbatim>\<open>globalId\<close>: the array \<^verbatim>\<open>block\<close> and the functions. \<open>class_member c n\<close> tells whether reading
  the name \<open>n\<close> from the class entity \<open>c\<close> gives a value that counts as true in a condition: a
  function or an array does, a number does unless it is 0, and \<^verbatim>\<open>undefined\<close> does not.
\<close>

definition ClassEntity_members :: "string list" where
  "ClassEntity_members =
     [''block'', ''getName'', ''numMethods'', ''addMethod'', ''getMethod'', ''numParams'',
      ''getParamDataType'', ''getParamName'', ''addParam'', ''getExtendedClassName'',
      ''numProperties'', ''addProperty'', ''getPropertyName'', ''getPropertyDataType'',
      ''getPropertyBrief'', ''getBrief'', ''numExamples'', ''getExampleText'']"

definition class_member :: "ClassEntity \<Rightarrow> string \<Rightarrow> bool" where
  "class_member c n =
     (if n = ''id'' then ent_id c \<noteq> 0
      else if n = ''globalId'' then ent_globalId c \<noteq> 0
      else n \<in> set ClassEntity_members \<or> n \<in> set Object_prototype_members)"

text \<open>
  What \<^verbatim>\<open>nameToClass\<close> returns: a class entity, another value that counts as true in a
  condition (a function, an array, a number, \<^verbatim>\<open>Object.prototype\<close>), or \<^verbatim>\<open>false\<close>.
\<close>

datatype looked = IsClass ClassEntity | OtherValue | JsFalse

definition deref :: "ClassEntity list \<Rightarrow> nat \<Rightarrow> ClassEntity option" where
  "deref cl r = find (\<lambda>c. ent_globalId c = r) cl"

definition index_get :: "ClassEntity list \<Rightarrow> Index \<Rightarrow> string \<Rightarrow> looked" where
  "index_get cl ix n =
     (case (if n = ''__proto__'' then ix_proto ix else ix_own ix n) of
        Some r \<Rightarrow> (case deref cl r of Some c \<Rightarrow> IsClass c | None \<Rightarrow> JsFalse)
      | None \<Rightarrow>
          if n = ''__proto__'' then OtherValue
          else
            (case ix_proto ix of
               None \<Rightarrow> if n \<in> set Object_prototype_members then OtherValue else JsFalse
             | Some r \<Rightarrow>
                 (case deref cl r of
                    Some c \<Rightarrow> if class_member c n then OtherValue else JsFalse
                  | None \<Rightarrow> JsFalse)))"

text \<open>Before \<^verbatim>\<open>update\<close> has run the two indexes are \<^verbatim>\<open>undefined\<close>, here \<open>None\<close>.\<close>

record Documentation =
  pages :: "PageEntity list"
  classes :: "ClassEntity list"
  files :: "Entity list"
  functions' :: "FunctionEntity list"
  doc_library :: "LibraryEntity option"
  todos :: "TodoEntity list"
  errors :: "ErrorReport list"
  methods :: "MethodEntity list"
  properties :: "PropertyEntity list"
  name2class :: "Index option"
  name2entity :: "Index option"

definition new_Documentation :: Documentation where
  "new_Documentation =
     \<lparr> pages = [], classes = [], files = [], functions' = [], doc_library = None, todos = [],
       errors = [], methods = [], properties = [],
       name2class = None, name2entity = None \<rparr>"

text \<open>
  \<^verbatim>\<open>update\<close> fills the indexes from the classes in their order, so that the last class of a
  name wins, and sorts pages, classes and functions by name. How \<^verbatim>\<open>Array.prototype.sort\<close>
  orders entities of the same name is left to the engine; here they keep their order.
\<close>

definition update :: "Documentation \<Rightarrow> Documentation" where
  "update d =
     (let n2c = foldl (\<lambda>ix c. index_put ix (class_getName c) (ent_globalId c)) new_Index
                  (classes d)
      in d\<lparr> name2entity := Some n2c, name2class := Some n2c,
            pages := sort_key page_getName (pages d),
            classes := sort_key class_getName (classes d),
            functions' := sort_key function_getName (functions' d) \<rparr>)"

text \<open>\<^verbatim>\<open>var c = name2class[name]; if(c) return c; else return false;\<close> Reading a property from
  \<^verbatim>\<open>undefined\<close> throws.\<close>

definition nameToClass :: "Documentation \<Rightarrow> string \<Rightarrow> exn + looked" where
  "nameToClass d name =
     (case name2class d of
        None \<Rightarrow> Inl TypeError
      | Some ix \<Rightarrow> Inr (index_get (classes d) ix name))"

text \<open>
  \<^verbatim>\<open>recurseInheritance\<close> calls itself with no bound; \<open>None\<close> is the value of a call that does not
  return. \<^verbatim>\<open>if(!extended) return;\<close> stops at \<^verbatim>\<open>false\<close> and at the empty string. When
  \<^verbatim>\<open>nameToClass\<close> returns a value that is no class entity, \<^verbatim>\<open>c.getExtendedClassName\<close> is
  \<^verbatim>\<open>undefined\<close> and the call of it throws.
\<close>

partial_function (option) recurseInheritance ::
  "Documentation \<Rightarrow> string \<Rightarrow> string list \<Rightarrow> (exn + string list) option" where
  "recurseInheritance d name nameList =
     (case nameToClass d name of
        Inl e \<Rightarrow> Some (Inl e)
      | Inr v \<Rightarrow>
          (case v of
             JsFalse \<Rightarrow> Some (Inr (nameList @ [name]))
           | OtherValue \<Rightarrow> Some (Inl TypeError)
           | IsClass c \<Rightarrow>
               (case getExtendedClassName c of
                  None \<Rightarrow> Some (Inr (nameList @ [name]))
                | Some extended \<Rightarrow>
                    if extended = [] then Some (Inr (nameList @ [name]))
                    else recurseInheritance d extended (nameList @ [name]))))"

definition getInheritanceList :: "Documentation \<Rightarrow> ClassEntity \<Rightarrow> (exn + string list) option" where
  "getInheritanceList d c = recurseInheritance d (class_getName c) []"

section \<open>Assembling entities\<close>

text \<open>
  The state of the loop of \<^verbatim>\<open>makeEntities\<close>: the documentation under construction, the variable
  \<^verbatim>\<open>lastClass\<close> and the counters. The variable \<^verbatim>\<open>entity\<close> of the loop only feeds
  \<^verbatim>\<open>todo.setEntity\<close>, which assigns a variable outside the documentation; both are left out.
\<close>

record MkState =
  st_doc :: Documentation
  st_lastClass :: "ClassEntity option"
  st_globals :: Globals

definition push_error :: "string \<Rightarrow> nat option \<Rightarrow> string \<Rightarrow> MkState \<Rightarrow> MkState" where
  "push_error fname ln msg s =
     (case new_ErrorReport fname ln msg (st_globals s) of
        (report, g') \<Rightarrow>
          s\<lparr> st_doc := (st_doc s)\<lparr> errors := errors (st_doc s) @ [report] \<rparr>,
             st_globals := g' \<rparr>)"

text \<open>\<^verbatim>\<open>xs[0]\<close>\<close>

definition first :: "'a list \<Rightarrow> 'a option" where
  "first xs = (case xs of [] \<Rightarrow> None | x # rest \<Rightarrow> Some x)"

text \<open>\<^verbatim>\<open>lines_array.join("\n")\<close>\<close>

fun join_lines :: "string list \<Rightarrow> string" where
  "join_lines [] = []"
| "join_lines [l] = l"
| "join_lines (l # ls) = l @ [CHR 0x0A] @ join_lines ls"

definition page_branch :: "Block \<Rightarrow> PageCommand \<Rightarrow> MkState \<Rightarrow> Block \<times> MkState" where
  "page_branch block pageCommand s =
     (let lines = getUnparsedLines2 block False;
          block' = foldl (\<lambda>b jl. markLineAsParsed b (Some (fst jl))) block lines;
          content = join_lines (map snd lines)
      in case new_PageEntity [block'] pageCommand content (st_globals s) of
           (entity, g') \<Rightarrow>
             (block', s\<lparr> st_doc := (st_doc s)\<lparr> pages := pages (st_doc s) @ [entity] \<rparr>,
                         st_globals := g' \<rparr>))"

definition class_return_msg :: string where
  "class_return_msg = ''@class blocks may not contain @return''"

definition self_extend_msg :: string where
  "self_extend_msg = ''A class may not extend itself!''"

definition extends_itself :: "Block \<Rightarrow> ClassCommand \<Rightarrow> bool" where
  "extends_itself block classCommand =
     (case extends block of
        [] \<Rightarrow> False
      | ec # rest \<Rightarrow> extends_className ec = class_name classCommand)"

definition class_branch :: "Block \<Rightarrow> ClassCommand \<Rightarrow> MkState \<Rightarrow> Block \<times> MkState" where
  "class_branch block classCommand s =
     (let s1 = (if ret block \<noteq> []
                then push_error (filename block) (Some (lineNumber block)) class_return_msg s
                else s);
          s2 = (if extends_itself block classCommand
                then push_error (filename block) (Some (lineNumber block)) self_extend_msg s1
                else s1);
          nerrors = (if ret block \<noteq> [] then 1 else 0)
                    + (if extends_itself block classCommand then 1 else (0::nat))
      in if nerrors = 0 then
           (case new_ClassEntity [block] classCommand (param block) (first (extends block))
                   (first (brief block)) (first (desc block)) (example block) (st_globals s2) of
              (entity, g') \<Rightarrow>
                (block, s2\<lparr> st_lastClass := Some entity,
                            st_doc := (st_doc s2)\<lparr> classes := classes (st_doc s2) @ [entity] \<rparr>,
                            st_globals := g' \<rparr>))
         else (block, s2))"

definition library_branch :: "Block \<Rightarrow> LibraryCommand \<Rightarrow> MkState \<Rightarrow> Block \<times> MkState" where
  "library_branch block libraryCommand s =
     (case new_LibraryEntity [block] libraryCommand (first (version block)) (first (brief block))
             (first (desc block)) (st_globals s) of
        (entity, g') \<Rightarrow>
          (block, s\<lparr> st_doc := (st_doc s)\<lparr> doc_library := Some entity \<rparr>, st_globals := g' \<rparr>))"

definition function_branch :: "Block \<Rightarrow> FunctionCommand \<Rightarrow> MkState \<Rightarrow> Block \<times> MkState" where
  "function_branch block functionCommand s =
     (case new_FunctionEntity [block] functionCommand (param block) (first (ret block))
             (first (brief block)) (first (desc block)) (example block) (st_globals s) of
        (entity, g') \<Rightarrow>
          (block, s\<lparr> st_doc := (st_doc s)\<lparr> functions' := functions' (st_doc s) @ [entity] \<rparr>,
                     st_globals := g' \<rparr>))"

text \<open>The fallback shared by the method and the property branch: a block without
  \<^verbatim>\<open>@memberof\<close> gets a \<^verbatim>\<open>MemberofCommand\<close> that names \<^verbatim>\<open>lastClass\<close>, when there is one.\<close>

definition memberof_fallback :: "Block \<Rightarrow> MkState \<Rightarrow> Block" where
  "memberof_fallback block s =
     (if memberof block = [] then
        (case st_lastClass s of
           None \<Rightarrow> block
         | Some lastClass \<Rightarrow>
             block\<lparr> memberof := memberof block @ [MemberofCommand (Some (class_getName lastClass))] \<rparr>)
      else block)"

definition method_branch :: "Block \<Rightarrow> MethodCommand \<Rightarrow> MkState \<Rightarrow> Block \<times> MkState" where
  "method_branch block0 methodCommand s =
     (let block = memberof_fallback block0 s
      in case memberof block of
           [memberofCommand] \<Rightarrow>
             (case new_MethodEntity [block] methodCommand memberofCommand (param block)
                     (first (brief block)) (first (ret block)) (st_globals s) of
                (entity, g') \<Rightarrow>
                  (block, s\<lparr> st_doc := (st_doc s)\<lparr> methods := methods (st_doc s) @ [entity] \<rparr>,
                             st_globals := g' \<rparr>))
         | _ \<Rightarrow> (block, s))"

definition property_memberof_msg :: "nat \<Rightarrow> string" where
  "property_memberof_msg n =
     ''A @property block requires exactly 1 @memberof command, got '' @ show_nat n @ ''.''"

definition property_branch :: "Block \<Rightarrow> PropertyCommand \<Rightarrow> MkState \<Rightarrow> Block \<times> MkState" where
  "property_branch block0 propertyCommand s =
     (let block = memberof_fallback block0 s
      in case memberof block of
           [memberofCommand] \<Rightarrow>
             (case new_PropertyEntity [block] propertyCommand memberofCommand
                     (first (brief block)) (first (desc block)) (st_globals s) of
                (entity, g') \<Rightarrow>
                  (block, s\<lparr> st_doc := (st_doc s)\<lparr> properties := properties (st_doc s) @ [entity] \<rparr>,
                             st_globals := g' \<rparr>))
         | _ \<Rightarrow>
             (block, push_error (filename block) (Some (lineNumber block))
                       (property_memberof_msg (length (memberof block))) s))"

text \<open>The classification of a block: the first non-empty collection among page, class, file,
  library, function, method and property decides; a file block gives nothing.\<close>

definition primary_branch :: "Block \<Rightarrow> MkState \<Rightarrow> Block \<times> MkState" where
  "primary_branch block s =
     (case page block of
        pageCommand # rest \<Rightarrow> page_branch block pageCommand s
      | [] \<Rightarrow>
     (case classs block of
        classCommand # rest \<Rightarrow> class_branch block classCommand s
      | [] \<Rightarrow>
     (case file' block of
        fileCommand # rest \<Rightarrow> (block, s)
      | [] \<Rightarrow>
     (case library block of
        libraryCommand # rest \<Rightarrow> library_branch block libraryCommand s
      | [] \<Rightarrow>
     (case func block of
        functionCommand # rest \<Rightarrow> function_branch block functionCommand s
      | [] \<Rightarrow>
     (case method' block of
        methodCommand # rest \<Rightarrow> method_branch block methodCommand s
      | [] \<Rightarrow>
     (case property block of
        propertyCommand # rest \<Rightarrow> property_branch block propertyCommand s
      | [] \<Rightarrow> (block, s))))))))"

definition todo_pass :: "Block \<Rightarrow> MkState \<Rightarrow> MkState" where
  "todo_pass block s =
     foldl (\<lambda>s' todoCommand.
              case new_TodoEntity [block] todoCommand (st_globals s') of
                (entity, g') \<Rightarrow>
                  s'\<lparr> st_doc := (st_doc s')\<lparr> todos := todos (st_doc s') @ [entity] \<rparr>,
                      st_globals := g' \<rparr>)
           s (todo block)"

definition unparsed_line_text :: "nat \<times> string \<Rightarrow> string" where
  "unparsed_line_text jl = ''Line '' @ show_nat (fst jl) @ '': '' @ snd jl @ [CHR 0x0A]"

definition unparsed_message :: "(nat \<times> string) list \<Rightarrow> string" where
  "unparsed_message unparsed =
     ''There was unparsed code:'' @ [CHR 0x0A, CHR 0x0A] @ concat (map unparsed_line_text unparsed)"

definition unparsed_pass :: "Block \<Rightarrow> MkState \<Rightarrow> MkState" where
  "unparsed_pass block s =
     (let unparsed = getUnparsedLines2 block True
      in if unparsed \<noteq> []
         then push_error (filename block) (Some (lineNumber block)) (unparsed_message unparsed) s
         else s)"

text \<open>One round of the loop over the blocks. The block is returned as the round leaves it.\<close>

definition assemble_block :: "Block \<Rightarrow> MkState \<Rightarrow> Block \<times> MkState" where
  "assemble_block block0 s =
     (case primary_branch block0 s of
        (block, s1) \<Rightarrow> (block, unparsed_pass block (todo_pass block s1)))"

definition assemble_blocks :: "Block list \<Rightarrow> MkState \<Rightarrow> MkState" where
  "assemble_blocks blocks s = foldl (\<lambda>s' block. snd (assemble_block block s')) s blocks"

text \<open>The pass over the methods and the properties after \<^verbatim>\<open>doc.update()\<close>.\<close>

definition method_not_found_msg :: "MethodEntity \<Rightarrow> string" where
  "method_not_found_msg m =
     ''Could not add method '' @ method_getName m @ '' to the class ''
       @ js_str (method_getClassName m) @ '', could not find that class.''"

text \<open>\<^verbatim>\<open>if(c) c.addMethod(m); else doc.errors.push(...)\<close>: when \<^verbatim>\<open>c\<close> is a value that is no class
  entity, \<^verbatim>\<open>c.addMethod\<close> is \<^verbatim>\<open>undefined\<close> and the call of it throws.\<close>

definition attach_method :: "MkState \<Rightarrow> MethodEntity \<Rightarrow> exn + MkState" where
  "attach_method s m =
     (case nameToClass (st_doc s) (js_str (method_getClassName m)) of
        Inl e \<Rightarrow> Inl e
      | Inr v \<Rightarrow>
          (case v of
             IsClass c \<Rightarrow>
               Inr (s\<lparr> st_doc := (st_doc s)\<lparr> classes :=
                      map (\<lambda>c'. if ent_globalId c' = ent_globalId c then addMethod c' m else c')
                          (classes (st_doc s)) \<rparr> \<rparr>)
           | OtherValue \<Rightarrow> Inl TypeError
           | JsFalse \<Rightarrow> Inr (push_error [] (Some 1) (method_not_found_msg m) s)))"

definition property_not_found_msg :: "PropertyEntity \<Rightarrow> string" where
  "property_not_found_msg p =
     ''Could not attach property '' @ js_str (property_getName p) @ '' to the class ''
       @ js_str (property_getClassName p) @ '' because it could not be found.''"

text \<open>\<^verbatim>\<open>p.block\<close> is the array \<^verbatim>\<open>[block]\<close>, so \<^verbatim>\<open>p.block.lineNumber\<close> is \<^verbatim>\<open>undefined\<close>.\<close>

definition attach_property :: "MkState \<Rightarrow> PropertyEntity \<Rightarrow> exn + MkState" where
  "attach_property s p =
     (case nameToClass (st_doc s) (js_str (property_getClassName p)) of
        Inl e \<Rightarrow> Inl e
      | Inr v \<Rightarrow>
          (case v of
             IsClass c \<Rightarrow>
               Inr (s\<lparr> st_doc := (st_doc s)\<lparr> classes :=
                      map (\<lambda>c'. if ent_globalId c' = ent_globalId c then addProperty c' p else c')
                          (classes (st_doc s)) \<rparr> \<rparr>)
           | OtherValue \<Rightarrow> Inl TypeError
           | JsFalse \<Rightarrow> Inr (push_error [] None (property_not_found_msg p) s)))"

text \<open>A loop over a list that an exception leaves at once.\<close>

fun attach_all :: "(MkState \<Rightarrow> 'a \<Rightarrow> exn + MkState) \<Rightarrow> MkState \<Rightarrow> 'a list \<Rightarrow> exn + MkState" where
  "attach_all f s [] = Inr s"
| "attach_all f s (x # xs) =
     (case f s x of Inl e \<Rightarrow> Inl e | Inr s' \<Rightarrow> attach_all f s' xs)"

text \<open>The passes after the loop: \<^verbatim>\<open>doc.update()\<close>, then the methods, then the properties.\<close>

definition post_pass :: "MkState \<Rightarrow> exn + MkState" where
  "post_pass s1 =
     (let s2 = s1\<lparr> st_doc := update (st_doc s1) \<rparr>
      in case attach_all attach_method s2 (methods (st_doc s2)) of
           Inl e \<Rightarrow> Inl e
         | Inr s3 \<Rightarrow> attach_all attach_property s3 (properties (st_doc s3)))"

definition makeEntities ::
  "Block list \<Rightarrow> ErrorReport list \<Rightarrow> Globals \<Rightarrow> exn + (Documentation \<times> Globals)" where
  "makeEntities blocks errs g =
     (let s0 = \<lparr> st_doc = new_Documentation\<lparr> errors := errs \<rparr>, st_lastClass = None,
                 st_globals = g \<rparr>;
          s1 = assemble_blocks blocks s0
      in case post_pass s1 of
           Inl e \<Rightarrow> Inl e
         | Inr s4 \<Rightarrow> Inr (st_doc s4, st_globals s4))"

section \<open>Loading\<close>

text \<open>
  \<^verbatim>\<open>loadBlocks\<close> asks the loader for every url and handles each answer in a callback; the
  answers arrive in an order of the loader's choosing. An answer is an error report or the text
  of the file. \<^verbatim>\<open>parseBlocks\<close> is an argument: it takes the text, the url, the errors and the
  counters and returns the blocks of the file with the errors and counters it leaves.
\<close>

datatype load_result = LoadFailed ErrorReport | LoadOk string

type_synonym parser =
  "string \<Rightarrow> string \<Rightarrow> ErrorReport list \<Rightarrow> Globals \<Rightarrow> Block list \<times> ErrorReport list \<times> Globals"

record LoadState =
  ld_numLoaded :: nat
  ld_errors :: "ErrorReport list"
  ld_blocks :: "Block list"
  ld_globals :: Globals
  ld_calls :: "(Block list \<times> ErrorReport list) list"

text \<open>The callback handed to the loader; \<open>ld_calls\<close> collects the calls of \<^verbatim>\<open>callback(blocks,errors)\<close>.\<close>

definition on_load :: "parser \<Rightarrow> nat \<Rightarrow> LoadState \<Rightarrow> string \<times> load_result \<Rightarrow> LoadState" where
  "on_load parseBlocks n_urls st answer =
     (let st1 = st\<lparr> ld_numLoaded := ld_numLoaded st + 1 \<rparr>;
          st2 = (case snd answer of
                   LoadOk content \<Rightarrow>
                     (case parseBlocks content (fst answer) (ld_errors st1) (ld_globals st1) of
                        (bs, es, g') \<Rightarrow>
                          st1\<lparr> ld_blocks := bs, ld_errors := es, ld_globals := g' \<rparr>)
                 | LoadFailed err \<Rightarrow> st1\<lparr> ld_errors := ld_errors st1 @ [err] \<rparr>)
      in if ld_numLoaded st2 = n_urls
         then st2\<lparr> ld_calls := ld_calls st2 @ [(ld_blocks st2, ld_errors st2)] \<rparr>
         else st2)"

definition loadBlocks ::
  "parser \<Rightarrow> string list \<Rightarrow> (string \<times> load_result) list \<Rightarrow> Globals \<Rightarrow> LoadState" where
  "loadBlocks parseBlocks urls answers g =
     foldl (on_load parseBlocks (length urls))
       \<lparr> ld_numLoaded = 0, ld_errors = [], ld_blocks = [], ld_globals = g, ld_calls = [] \<rparr>
       answers"

section \<open>Notions used in the statements\<close>

text \<open>The key under which \<^verbatim>\<open>getUnparsedLines2\<close> stores the line \<open>j\<close>.\<close>

definition line_key :: "Block \<Rightarrow> bool \<Rightarrow> nat \<Rightarrow> nat" where
  "line_key b g j = (if g then localToGlobalLineNumber b j else j)"

text \<open>The report of \<^verbatim>\<open>makeEntities\<close> for unparsed lines is the only one whose message starts with
  \<^verbatim>\<open>There was unparsed code:\<close>.\<close>

definition is_unparsed_report :: "ErrorReport \<Rightarrow> bool" where
  "is_unparsed_report e = starts_with ''There was unparsed code:'' (er_message e)"

text \<open>The entries of \<^verbatim>\<open>parsedLines\<close> that are numbers.\<close>

definition numeric_entries :: "nat option list \<Rightarrow> nat option list" where
  "numeric_entries xs = filter (\<lambda>x. x \<noteq> None) xs"

text \<open>
  The names from \<open>name\<close> along the \<^verbatim>\<open>@extends\<close> links of the index, when the chain ends within
  \<open>k\<close> steps at a name for which \<^verbatim>\<open>nameToClass\<close> gives \<^verbatim>\<open>false\<close> or at a class that extends
  nothing; \<open>None\<close> when \<open>k\<close> steps do not reach the end, when the index is \<^verbatim>\<open>undefined\<close>, and when
  the chain meets a name for which \<^verbatim>\<open>nameToClass\<close> gives a value that is no class entity.
\<close>

fun chain_within :: "nat \<Rightarrow> Documentation \<Rightarrow> string \<Rightarrow> string list option" where
  "chain_within 0 d name = None"
| "chain_within (Suc k) d name =
     (case nameToClass d name of
        Inl e \<Rightarrow> None
      | Inr v \<Rightarrow>
          (case v of
             JsFalse \<Rightarrow> Some [name]
           | OtherValue \<Rightarrow> None
           | IsClass c \<Rightarrow>
               (case getExtendedClassName c of
                  None \<Rightarrow> Some [name]
                | Some extended \<Rightarrow>
                    if extended = [] then Some [name]
                    else map_option ((#) name) (chain_within k d extended))))"

text \<open>Every name of the list has a class in the index, and the class extends a name of the
  list: following \<^verbatim>\<open>@extends\<close> from a name of the list never leaves it.\<close>

definition extends_closed :: "Documentation \<Rightarrow> string list \<Rightarrow> bool" where
  "extends_closed d names =
     list_all (\<lambda>n. case nameToClass d n of
                      Inl e \<Rightarrow> False
                    | Inr v \<Rightarrow>
                        (case v of
                           IsClass c \<Rightarrow> (case getExtendedClassName c of
                                          None \<Rightarrow> False
                                        | Some e \<Rightarrow> e \<noteq> [] \<and> e \<in> set names)
                         | OtherValue \<Rightarrow> False
                         | JsFalse \<Rightarrow> False)) names"



text \<open>
  An entity and an error report without their sequence ids; the entities of a state of the loop
  without their ids, apart from the todo entities, together with \<^verbatim>\<open>lastClass\<close>; the reports that
  a later state has more than an earlier one, without their ids.
\<close>

definition erase_ids :: "'a Entity_scheme \<Rightarrow> 'a Entity_scheme" where
  "erase_ids e = e\<lparr> ent_id := 0, ent_globalId := 0 \<rparr>"

definition erase_er_id :: "ErrorReport \<Rightarrow> ErrorReport" where
  "erase_er_id e = e\<lparr> er_id := 0 \<rparr>"

definition entities_view ::
  "MkState \<Rightarrow> ClassEntity option \<times> PageEntity list \<times> ClassEntity list \<times> FunctionEntity list \<times>
     LibraryEntity option \<times> MethodEntity list \<times> PropertyEntity list" where
  "entities_view s =
     (map_option erase_ids (st_lastClass s),
      map erase_ids (pages (st_doc s)),
      map erase_ids (classes (st_doc s)),
      map erase_ids (functions' (st_doc s)),
      map_option erase_ids (doc_library (st_doc s)),
      map erase_ids (methods (st_doc s)),
      map erase_ids (properties (st_doc s)))"

definition new_error_views :: "MkState \<Rightarrow> MkState \<Rightarrow> ErrorReport list" where
  "new_error_views s s' =
     map erase_er_id (drop (length (errors (st_doc s))) (errors (st_doc s')))"

text \<open>Two rounds of the loop that leave the same block, the same entities and the same new
  reports, ids apart.\<close>

definition same_step :: "Block \<times> MkState \<Rightarrow> Block \<times> MkState \<Rightarrow> MkState \<Rightarrow> MkState \<Rightarrow> bool" where
  "same_step r1 r2 s1 s2 =
     (fst r1 = fst r2 \<and> entities_view (snd r1) = entities_view (snd r2)
      \<and> new_error_views s1 (snd r1) = new_error_views s2 (snd r2))"

text \<open>
  The global ids of the class entities of a state are pairwise different and none is above the
  counter. A class entity grows into another when only methods and properties are added to it.
  A later state of the passes after \<^verbatim>\<open>doc.update()\<close> has the same index, the same methods and the
  same properties, and every class has grown.
\<close>

definition ids_ok :: "MkState \<Rightarrow> bool" where
  "ids_ok s =
     (list_all (\<lambda>c. ent_globalId c \<le> globalEntityCounter (st_globals s)) (classes (st_doc s))
      \<and> distinct (map ent_globalId (classes (st_doc s))))"

definition grows :: "ClassEntity \<Rightarrow> ClassEntity \<Rightarrow> bool" where
  "grows c c' =
     (ent_globalId c' = ent_globalId c \<and> ent_id c' = ent_id c
      \<and> class_getName c' = class_getName c
      \<and> set (ce_methodEntities c) \<subseteq> set (ce_methodEntities c'))"

definition later_state :: "MkState \<Rightarrow> MkState \<Rightarrow> bool" where
  "later_state s s' =
     (name2class (st_doc s') = name2class (st_doc s)
      \<and> list_all2 grows (classes (st_doc s)) (classes (st_doc s'))
      \<and> methods (st_doc s') = methods (st_doc s)
      \<and> properties (st_doc s') = properties (st_doc s))"

text \<open>
  The state at the end of the loop of \<^verbatim>\<open>makeEntities\<close>. In such a state, no method or property
  entity has a class name for which \<^verbatim>\<open>nameToClass\<close>, after \<^verbatim>\<open>doc.update()\<close>, gives a value that is
  no class entity: a name that the index inherits and no class has, such as \<^verbatim>\<open>toString\<close>.
\<close>

definition loop_end :: "Block list \<Rightarrow> ErrorReport list \<Rightarrow> Globals \<Rightarrow> MkState" where
  "loop_end blocks errs g =
     assemble_blocks blocks
       \<lparr> st_doc = new_Documentation\<lparr> errors := errs \<rparr>, st_lastClass = None, st_globals = g \<rparr>"

definition class_names_found :: "MkState \<Rightarrow> bool" where
  "class_names_found s =
     (let d = update (st_doc s)
      in list_all (\<lambda>m. nameToClass d (js_str (method_getClassName m)) \<noteq> Inr OtherValue)
           (methods d)
       \<and> list_all (\<lambda>p. nameToClass d (js_str (property_getClassName p)) \<noteq> Inr OtherValue)
           (properties d))"

section \<open>Example inputs\<close>

text \<open>
  The block that \<^verbatim>\<open>parseBlocks\<close> makes, before any tag is parsed, from the comment
  \<^verbatim>\<open>/**\n * line1\n * line2\n */\<close> that starts at line \<open>ln\<close> of the file \<open>fname\<close>.
\<close>

definition comment_block :: "string \<Rightarrow> string list \<Rightarrow> nat \<Rightarrow> Block" where
  "comment_block fname ls ln =
     (fst (new_Block (join_lines ls)
             (''/**'' @ [CHR 0x0A] @ concat (map (\<lambda>l. '' * '' @ l @ [CHR 0x0A]) ls) @ '' */'')
             ln init_Globals))
       \<lparr> filename := fname \<rparr>"

definition one_line_block :: "string \<Rightarrow> string \<Rightarrow> nat \<Rightarrow> Block" where
  "one_line_block fname line ln = comment_block fname [line] ln"

definition init_MkState :: MkState where
  "init_MkState = \<lparr> st_doc = new_Documentation, st_lastClass = None, st_globals = init_Globals \<rparr>"

text \<open>\<^verbatim>\<open>@method bar\<close> with \<^verbatim>\<open>@memberof Nope\<close>, at line 5 of \<^verbatim>\<open>a.js\<close>, after the tag parsers.\<close>

definition orphan_method_block :: Block where
  "orphan_method_block =
     (comment_block ''a.js'' [''@method bar'', ''@memberof Nope''] 5)
       \<lparr> parsedLines := [Some 1, Some 0],
         memberof := [MemberofCommand (Some ''Nope'')], method' := [MethodCommand ''bar''] \<rparr>"

text \<open>\<^verbatim>\<open>@class Foo\<close> with \<^verbatim>\<open>@return string\<close>, after the tag parsers.\<close>

definition class_return_block :: Block where
  "class_return_block =
     (comment_block ''a.js'' [''@class Foo'', ''@return string''] 1)
       \<lparr> parsedLines := [Some 0, Some 1],
         classs := [ClassCommand ''Foo''], ret := [ReturnCommand (Some ''string'') None] \<rparr>"

text \<open>\<^verbatim>\<open>@page Intro\<close> with \<^verbatim>\<open>@class Foo\<close> and \<^verbatim>\<open>@return string\<close>, after the tag parsers.\<close>

definition page_class_return_block :: Block where
  "page_class_return_block =
     (comment_block ''a.js'' [''@page Intro'', ''@class Foo'', ''@return string''] 1)
       \<lparr> parsedLines := [Some 1, Some 0, Some 2],
         classs := [ClassCommand ''Foo''], page := [PageCommand ''Intro''],
         ret := [ReturnCommand (Some ''string'') None] \<rparr>"

text \<open>\<^verbatim>\<open>@class Foo\<close> followed by a line without a tag, at line 3 of \<^verbatim>\<open>a.js\<close>, after the tag
  parsers.\<close>

definition stray_line_block :: Block where
  "stray_line_block =
     (comment_block ''a.js'' [''@class Foo'', ''some stray text''] 3)
       \<lparr> parsedLines := [Some 0], classs := [ClassCommand ''Foo''] \<rparr>"

text \<open>\<^verbatim>\<open>@page About\<close> followed by a line of prose, after the tag parsers.\<close>

definition prose_page_block :: Block where
  "prose_page_block =
     (comment_block ''a.js'' [''@page About'', ''Some prose.''] 1)
       \<lparr> parsedLines := [Some 0], page := [PageCommand ''About''] \<rparr>"

text \<open>A block with \<^verbatim>\<open>@class name\<close> and, when \<open>ext\<close> is given, \<^verbatim>\<open>@extends ext\<close>, after the tag parsers;
  two classes that extend each other; a class \<^verbatim>\<open>B\<close> that extends a class \<^verbatim>\<open>A\<close>.\<close>

definition class_block :: "string \<Rightarrow> string option \<Rightarrow> nat \<Rightarrow> Block" where
  "class_block name ext ln =
     (case ext of
        None \<Rightarrow> (comment_block ''a.js'' [''@class '' @ name] ln)
                  \<lparr> parsedLines := [Some 0], classs := [ClassCommand name] \<rparr>
      | Some e \<Rightarrow> (comment_block ''a.js'' [''@class '' @ name, ''@extends '' @ e] ln)
                  \<lparr> parsedLines := [Some 0, Some 1], classs := [ClassCommand name],
                    extends := [ExtendsCommand e] \<rparr>)"

definition cycle_doc :: Documentation where
  "cycle_doc =
     update (st_doc (loop_end [class_block ''C'' (Some ''D'') 1, class_block ''D'' (Some ''C'') 6]
                       [] init_Globals))"

definition chain_doc :: Documentation where
  "chain_doc =
     update (st_doc (loop_end [class_block ''B'' (Some ''A'') 1, class_block ''A'' None 6]
                       [] init_Globals))"

text \<open>A class \<^verbatim>\<open>C\<close> that extends \<^verbatim>\<open>toString\<close>, a name that no class has.\<close>

definition inherited_doc :: Documentation where
  "inherited_doc =
     update (st_doc (loop_end [class_block ''C'' (Some ''toString'') 1] [] init_Globals))"

text \<open>\<^verbatim>\<open>@method bar\<close> without \<^verbatim>\<open>@memberof\<close>, after the tag parsers; the state of the loop after the
  block of a class \<^verbatim>\<open>Good\<close>.\<close>

definition plain_method_block :: Block where
  "plain_method_block =
     (comment_block ''a.js'' [''@method bar''] 20)
       \<lparr> parsedLines := [Some 0], method' := [MethodCommand ''bar''] \<rparr>"

definition after_good_class :: MkState where
  "after_good_class = assemble_blocks [class_block ''Good'' None 1] init_MkState"

text \<open>\<^verbatim>\<open>@method x\<close> with \<^verbatim>\<open>@memberof toString\<close>, after the tag parsers.\<close>

definition inherited_method_block :: Block where
  "inherited_method_block =
     (comment_block ''a.js'' [''@method x'', ''@memberof toString''] 30)
       \<lparr> parsedLines := [Some 1, Some 0],
         memberof := [MemberofCommand (Some ''toString'')], method' := [MethodCommand ''x''] \<rparr>"



text \<open>\<^verbatim>\<open>@function foo\<close> with \<^verbatim>\<open>@method bar\<close> and no \<^verbatim>\<open>@memberof\<close>, after the tag parsers.\<close>

definition function_method_block :: Block where
  "function_method_block =
     (comment_block ''a.js'' [''@function foo'', ''@method bar''] 20)
       \<lparr> parsedLines := [Some 0, Some 1], func := [FunctionCommand ''foo'' None],
         method' := [MethodCommand ''bar''] \<rparr>"

section \<open>Evaluation rules\<close>

declare lineIsParsed.simps [simp del]

lemmas block_eval =
  new_Block_def init_Globals_def getUnparsedLines2_def getUnparsedLines2_loop.simps
  getNumLines_def getLine_def markLineAsParsed_def one_line_block_def comment_block_def
  count_newlines_def localToGlobalLineNumber_def lineIsParsed.simps

lemmas assembly_eval =
  makeEntities_def assemble_blocks_def assemble_block_def primary_branch_def
  page_branch_def class_branch_def library_branch_def function_branch_def method_branch_def
  property_branch_def memberof_fallback_def todo_pass_def unparsed_pass_def push_error_def
  new_ErrorReport_def new_Documentation_def update_def nameToClass_def attach_method_def
  post_pass_def loop_end_def index_get_def index_put_def new_Index_def deref_def
  class_member_def Object_prototype_members_def ClassEntity_members_def
  attach_property_def new_Entity_def new_MethodEntity_def new_ClassEntity_def
  new_FunctionEntity_def new_PageEntity_def new_PropertyEntity_def new_LibraryEntity_def
  new_TodoEntity_def first_def js_str_def method_getName_def method_getClassName_def
  class_getName_def extends_itself_def init_MkState_def Let_def

section \<open>The matcher reads forward\<close>

text \<open>
  A match never hands back input that was read. So the test \<open>length s \<le> length (fst y)\<close> in the
  clause of \<open>Rep\<close> holds exactly when the round has read nothing, which is the case in which a
  JavaScript engine gives a round up once the minimum is reached.
\<close>

lemma ms_rest_not_longer:
  "y \<in> set (ms r x) \<Longrightarrow> length (fst y) \<le> length (fst x)"
proof (induction r x arbitrary: y rule: ms.induct)
  case (1 c s cp)
  then show ?case by (cases s) (auto split: if_splits)
next
  case (2 s cp)
  then show ?case by simp
next
  case (3 s cp)
  then show ?case by (auto split: if_splits)
next
  case (4 a b s cp)
  from "4.prems" obtain z where z: "z \<in> set (ms a (s, cp))" and y: "y \<in> set (ms b z)"
    by auto
  from "4.IH"(1)[OF z] "4.IH"(2)[OF z y] show ?case by simp
next
  case (5 a b s cp)
  then show ?case by (cases y) auto
next
  case (6 k r s cp)
  then show ?case by (cases y) auto
next
  case (7 mn mx r s cp)
  show ?case
  proof (cases "mx = Some 0")
    case True
    then show ?thesis using "7.prems" by simp
  next
    case False
    from "7.prems" False consider
      (stop) "y = (s, cp)" |
      (go) z where "z \<in> set (ms r (s, clear (groups r) cp))"
        "\<not> (mn = 0 \<and> length s \<le> length (fst z))"
        "y \<in> set (ms (Rep (mn - 1) (map_option (\<lambda>m. m - 1) mx) r) z)"
      by (auto split: if_splits)
    then show ?thesis
    proof cases
      case stop
      then show ?thesis by simp
    next
      case go
      from "7.IH"(1)[OF False go(1)] "7.IH"(2)[OF False go(1) go(2) go(3)]
      show ?thesis by simp
    qed
  qed
qed

section \<open>Loading several files\<close>

text \<open>
  C3. Two files are requested and both loads succeed, the first answer before the second.
  \<^verbatim>\<open>loadBlocks\<close> calls its callback once, and the blocks it hands over are those of the file
  that answered last: \<^verbatim>\<open>blocks = parseBlocks(content,url,errors)\<close> replaces the blocks of the
  file before it, where the claim wants the blocks of both files.
\<close>

theorem loadBlocks_keeps_last_file_only:
  "(case parseBlocks c1 u1 [] g of
      (bs1, es1, g1) \<Rightarrow>
        (case parseBlocks c2 u2 es1 g1 of
           (bs2, es2, g2) \<Rightarrow>
             ld_calls (loadBlocks parseBlocks [u1, u2] [(u1, LoadOk c1), (u2, LoadOk c2)] g)
               = [(bs2, es2)]))"
  by (simp add: loadBlocks_def on_load_def Let_def split: prod.splits)

section \<open>The two spellings of \<^verbatim>\<open>@memberof\<close>\<close>

text \<open>
  C7. On the line \<^verbatim>\<open>@memberOf Foo\<close> the parser marks the line consumed and gives one command,
  but the class name of the command is \<^verbatim>\<open>undefined\<close>: the regular expression matches its first
  alternative \<^verbatim>\<open>(@memberOf)\<close>, which has no class name. On \<^verbatim>\<open>@memberof Foo\<close> the class name is
  \<^verbatim>\<open>Foo\<close>.
\<close>

theorem memberOf_spelling_loses_class_name:
  "MemberofCommand_parse (one_line_block ''a.js'' ''@memberOf Foo'' 1) [] init_Globals =
     Inr ([MemberofCommand None],
          markLineAsParsed (one_line_block ''a.js'' ''@memberOf Foo'' 1) (Some 0), [],
          init_Globals)
   \<and> MemberofCommand_parse (one_line_block ''a.js'' ''@memberof Foo'' 1) [] init_Globals =
     Inr ([MemberofCommand (Some ''Foo'')],
          markLineAsParsed (one_line_block ''a.js'' ''@memberof Foo'' 1) (Some 0), [],
          init_Globals)"
  by (simp add: block_eval MemberofCommand_parse_def memberof_mk_def memberof_re_def
        is_space_def)

section \<open>Entity ids\<close>

text \<open>
  C8. A function entity constructed right after a class entity gets the id of the class entity
  plus one, whatever the counters were: no constructor hands an entity name to
  \<^verbatim>\<open>DOCJS.Entity\<close>, so all kinds share the counter \<^verbatim>\<open>entityCounter["undefined"]\<close>.
\<close>

theorem entity_id_counter_shared_by_all_kinds:
  "ent_id (fst (new_FunctionEntity bl fc ps r br d ex
             (snd (new_ClassEntity bl' cc ps' e br' d' ex' g)))) =
   ent_id (fst (new_ClassEntity bl' cc ps' e br' d' ex' g)) + 1"
  by (simp add: new_FunctionEntity_def new_ClassEntity_def new_Entity_def Let_def
        Entity.defs FunctionEntity.defs ClassEntity.defs split: prod.splits option.splits)

section \<open>Properties of the passes over a block\<close>

lemma todo_fold_shape:
  "\<exists>ts g'. foldl (\<lambda>s' todoCommand.
              case new_TodoEntity [block] todoCommand (st_globals s') of
                (entity, g') \<Rightarrow>
                  s'\<lparr> st_doc := (st_doc s')\<lparr> todos := todos (st_doc s') @ [entity] \<rparr>,
                      st_globals := g' \<rparr>) s xs
     = s\<lparr> st_doc := (st_doc s)\<lparr> todos := ts \<rparr>, st_globals := g' \<rparr>"
proof (induction xs arbitrary: s)
  case Nil
  have "s = s\<lparr> st_doc := (st_doc s)\<lparr> todos := todos (st_doc s) \<rparr>, st_globals := st_globals s \<rparr>"
    by simp
  then show ?case by (metis foldl_Nil)
next
  case (Cons x xs)
  obtain e g1 where n: "new_TodoEntity [block] x (st_globals s) = (e, g1)"
    by (cases "new_TodoEntity [block] x (st_globals s)")
  let ?s1 = "s\<lparr> st_doc := (st_doc s)\<lparr> todos := todos (st_doc s) @ [e] \<rparr>, st_globals := g1 \<rparr>"
  from Cons.IH[of ?s1] obtain ts g' where
    "foldl (\<lambda>s' todoCommand.
              case new_TodoEntity [block] todoCommand (st_globals s') of
                (entity, g') \<Rightarrow>
                  s'\<lparr> st_doc := (st_doc s')\<lparr> todos := todos (st_doc s') @ [entity] \<rparr>,
                      st_globals := g' \<rparr>) ?s1 xs
     = ?s1\<lparr> st_doc := (st_doc ?s1)\<lparr> todos := ts \<rparr>, st_globals := g' \<rparr>" by blast
  then show ?case using n by (auto intro!: exI)
qed

lemma todo_pass_shape:
  "\<exists>ts g'. todo_pass block s = s\<lparr> st_doc := (st_doc s)\<lparr> todos := ts \<rparr>, st_globals := g' \<rparr>"
  unfolding todo_pass_def by (rule todo_fold_shape)

lemma todo_pass_errors [simp]: "errors (st_doc (todo_pass block s)) = errors (st_doc s)"
  using todo_pass_shape[of block s] by auto

lemma todo_pass_classes [simp]: "classes (st_doc (todo_pass block s)) = classes (st_doc s)"
  using todo_pass_shape[of block s] by auto

lemma todo_pass_methods [simp]: "methods (st_doc (todo_pass block s)) = methods (st_doc s)"
  using todo_pass_shape[of block s] by auto

lemma todo_pass_properties [simp]:
  "properties (st_doc (todo_pass block s)) = properties (st_doc s)"
  using todo_pass_shape[of block s] by auto

lemma todo_pass_lastClass [simp]: "st_lastClass (todo_pass block s) = st_lastClass s"
  using todo_pass_shape[of block s] by auto

lemma push_error_errors [simp]:
  "errors (st_doc (push_error f ln msg s)) =
     errors (st_doc s) @ [\<lparr> er_lineNumber = ln, er_file = f, er_message = msg,
                             er_id = errorReportIdCounter (st_globals s) + 1 \<rparr>]"
  by (simp add: push_error_def new_ErrorReport_def)

lemma push_error_classes [simp]: "classes (st_doc (push_error f ln msg s)) = classes (st_doc s)"
  by (simp add: push_error_def new_ErrorReport_def)

lemma push_error_methods [simp]: "methods (st_doc (push_error f ln msg s)) = methods (st_doc s)"
  by (simp add: push_error_def new_ErrorReport_def)

lemma push_error_properties [simp]:
  "properties (st_doc (push_error f ln msg s)) = properties (st_doc s)"
  by (simp add: push_error_def new_ErrorReport_def)

lemma push_error_lastClass [simp]: "st_lastClass (push_error f ln msg s) = st_lastClass s"
  by (simp add: push_error_def new_ErrorReport_def)

lemma push_error_counter [simp]:
  "errorReportIdCounter (st_globals (push_error f ln msg s)) =
     errorReportIdCounter (st_globals s) + 1"
  by (simp add: push_error_def new_ErrorReport_def)

lemma unparsed_message_not_structural [simp]:
  "unparsed_message u \<noteq> class_return_msg" "unparsed_message u \<noteq> self_extend_msg"
  by (simp_all add: unparsed_message_def class_return_msg_def self_extend_msg_def)

lemma self_extend_msg_not_class_return_msg [simp]: "self_extend_msg \<noteq> class_return_msg"
  by (simp add: class_return_msg_def self_extend_msg_def)

section \<open>A class block with \<^verbatim>\<open>@return\<close>\<close>

text \<open>
  C5, as amended. For every block that has a \<^verbatim>\<open>@class\<close> command and a \<^verbatim>\<open>@return\<close> command and
  no \<^verbatim>\<open>@page\<close> command, and from every state of the loop, the round of \<^verbatim>\<open>makeEntities\<close> for the
  block adds no class entity, keeps the error reports there were, and adds exactly one report
  with the message of the class and return conflict; the report carries the file name and the
  line number of the block.
\<close>

theorem class_block_with_return_rejected:
  assumes "page block = []" and "classs block \<noteq> []" and "ret block \<noteq> []"
  shows "classes (st_doc (snd (assemble_block block s))) = classes (st_doc s)
       \<and> take (length (errors (st_doc s))) (errors (st_doc (snd (assemble_block block s))))
           = errors (st_doc s)
       \<and> filter (\<lambda>e. er_message e = class_return_msg)
            (drop (length (errors (st_doc s))) (errors (st_doc (snd (assemble_block block s)))))
           = [\<lparr> er_lineNumber = Some (lineNumber block), er_file = filename block,
                er_message = class_return_msg,
                er_id = errorReportIdCounter (st_globals s) + 1 \<rparr>]"
proof -
  obtain cc cs where c: "classs block = cc # cs"
    using assms(2) by (cases "classs block") auto
  show ?thesis
    using assms c
    by (simp add: assemble_block_def primary_branch_def class_branch_def unparsed_pass_def
          Let_def)
qed

theorem class_block_with_return_rejected_witness:
  "page class_return_block = [] \<and> classs class_return_block \<noteq> []
   \<and> ret class_return_block \<noteq> []
   \<and> classes (st_doc (snd (assemble_block class_return_block init_MkState))) = []
   \<and> filter (\<lambda>e. er_message e = class_return_msg)
        (errors (st_doc (snd (assemble_block class_return_block init_MkState))))
       = [\<lparr> er_lineNumber = Some 1, er_file = ''a.js'', er_message = class_return_msg,
            er_id = 1 \<rparr>]"
  using class_block_with_return_rejected [of class_return_block init_MkState]
  by (simp add: class_return_block_def init_MkState_def new_Documentation_def block_eval)

text \<open>
  The claim as stated fails on a block that also has a \<^verbatim>\<open>@page\<close> command: the page branch comes
  first, so the block becomes a page and no report is made at all.
\<close>

theorem class_block_with_return_counterexample:
  "classs page_class_return_block \<noteq> [] \<and> ret page_class_return_block \<noteq> []
   \<and> errors (st_doc (snd (assemble_block page_class_return_block init_MkState))) = []
   \<and> length (pages (st_doc (snd (assemble_block page_class_return_block init_MkState)))) = 1"
  by (simp add: page_class_return_block_def assembly_eval block_eval)

section \<open>The report for a method without its class\<close>

text \<open>
  C9. The method \<^verbatim>\<open>bar\<close> of the block at line 5 of \<^verbatim>\<open>a.js\<close> names the class \<^verbatim>\<open>Nope\<close>, which
  no block defines. \<^verbatim>\<open>makeEntities\<close> returns, and its report has the empty string as its file name
  and 1 as its line number: both are constants of the call, where the claim wants the file name and
  the line number of the method.
\<close>

theorem method_not_found_report_has_no_origin:
  "map_sum id (\<lambda>r. errors (fst r)) (makeEntities [orphan_method_block] [] init_Globals) =
     Inr [\<lparr> er_lineNumber = Some 1, er_file = [],
            er_message = ''Could not add method bar to the class Nope, could not find that class.'',
            er_id = 1 \<rparr>]
   \<and> filename orphan_method_block = ''a.js'' \<and> lineNumber orphan_method_block = 5"
  by (simp add: orphan_method_block_def assembly_eval block_eval method_not_found_msg_def
        Entity.defs MethodEntity.defs)

section \<open>Unparsed lines\<close>

lemma obj_put_append:
  "\<forall>kv\<in>set acc. fst kv < k \<Longrightarrow> obj_put acc k v = acc @ [(k, v)]"
  by (induction acc) auto

lemma line_key_mono: "i < j \<Longrightarrow> line_key b g i < line_key b g j"
  by (simp add: line_key_def localToGlobalLineNumber_def)

lemma getUnparsedLines2_loop_closed:
  "\<forall>kv\<in>set acc. fst kv < line_key b g i \<Longrightarrow>
   getUnparsedLines2_loop b g i n acc =
     acc @ map (\<lambda>j. (line_key b g j, getLine b j))
               (filter (\<lambda>j. \<not> lineIsParsed b (Some j)) [i..<n])"
proof (induction b g i n acc rule: getUnparsedLines2_loop.induct)
  case (1 b g i n acc)
  show ?case
  proof (cases "i < n")
    case False
    then show ?thesis by (simp add: getUnparsedLines2_loop.simps)
  next
    case True
    let ?acc' = "if \<not> lineIsParsed b (Some i) then
             (if g
              then obj_put acc (localToGlobalLineNumber b i) (getLine b i)
              else obj_put acc i (getLine b i))
           else acc"
    have put: "?acc' = (if \<not> lineIsParsed b (Some i) then acc @ [(line_key b g i, getLine b i)] else acc)"
      using obj_put_append[of acc "line_key b g i" "getLine b i"] "1.prems"
      by (auto simp: line_key_def)
    have keys: "\<forall>kv\<in>set ?acc'. fst kv < line_key b g (i + 1)"
      unfolding put using "1.prems" line_key_mono[of i "i + 1" b g] by auto
    have "getUnparsedLines2_loop b g i n acc = getUnparsedLines2_loop b g (i + 1) n ?acc'"
      using True by (subst getUnparsedLines2_loop.simps) simp
    also have "\<dots> = ?acc' @ map (\<lambda>j. (line_key b g j, getLine b j))
               (filter (\<lambda>j. \<not> lineIsParsed b (Some j)) [i + 1..<n])"
      using "1.IH"[OF True keys] .
    finally show ?thesis
      unfolding put using True by (simp add: upt_conv_Cons)
  qed
qed

lemma getUnparsedLines2_closed:
  "getUnparsedLines2 b g =
     map (\<lambda>j. (line_key b g j, getLine b j))
         (filter (\<lambda>j. \<not> lineIsParsed b (Some j)) [0..<getNumLines b])"
  unfolding getUnparsedLines2_def
  using getUnparsedLines2_loop_closed[of "[]" b g 0 "getNumLines b"] by simp


lemma starts_with_append [simp]: "starts_with p (p @ r)"
  by (induction p) auto

lemma unparsed_message_is_unparsed_report [simp]:
  "is_unparsed_report (r\<lparr> er_message := unparsed_message u \<rparr>)"
  by (simp add: is_unparsed_report_def unparsed_message_def)

lemma is_unparsed_report_push [simp]:
  "is_unparsed_report \<lparr> er_lineNumber = ln, er_file = f, er_message = unparsed_message u, er_id = k \<rparr>"
  by (simp add: is_unparsed_report_def unparsed_message_def)

lemma structural_not_unparsed [simp]:
  "\<not> is_unparsed_report \<lparr> er_lineNumber = ln, er_file = f, er_message = class_return_msg, er_id = k \<rparr>"
  "\<not> is_unparsed_report \<lparr> er_lineNumber = ln, er_file = f, er_message = self_extend_msg, er_id = k \<rparr>"
  "\<not> is_unparsed_report \<lparr> er_lineNumber = ln, er_file = f, er_message = property_memberof_msg n, er_id = k \<rparr>"
  by (simp_all add: is_unparsed_report_def class_return_msg_def self_extend_msg_def property_memberof_msg_def)

lemma primary_branch_errors:
  "\<exists>new. errors (st_doc (snd (primary_branch b s))) = errors (st_doc s) @ new
         \<and> filter is_unparsed_report new = []"
  by (auto simp: primary_branch_def page_branch_def class_branch_def library_branch_def
        function_branch_def method_branch_def property_branch_def Let_def
        new_PageEntity_def new_ClassEntity_def new_LibraryEntity_def new_FunctionEntity_def
        new_MethodEntity_def new_PropertyEntity_def new_Entity_def
        split: list.splits option.splits prod.splits)


lemma markLineAsParsed_fields [simp]:
  "src (markLineAsParsed b x) = src b"
  "lineNumber (markLineAsParsed b x) = lineNumber b"
  "rawDiff (markLineAsParsed b x) = rawDiff b"
  "filename (markLineAsParsed b x) = filename b"
  by (simp_all add: markLineAsParsed_def)

lemma lineIsParsed_mark [simp]:
  "lineIsParsed (markLineAsParsed b x) (Some i) = (lineIsParsed b (Some i) \<or> x = Some i)"
  by (cases x) (auto simp: markLineAsParsed_def lineIsParsed.simps)

lemma markLineAsParsed_distinct:
  "distinct (numeric_entries (parsedLines b)) \<Longrightarrow>
   distinct (numeric_entries (parsedLines (markLineAsParsed b x)))"
  by (cases x) (auto simp: markLineAsParsed_def numeric_entries_def lineIsParsed.simps)

lemma mark_fold_fields [simp]:
  "src (foldl (\<lambda>b jl. markLineAsParsed b (Some (fst jl))) b ls) = src b"
  "lineNumber (foldl (\<lambda>b jl. markLineAsParsed b (Some (fst jl))) b ls) = lineNumber b"
  "rawDiff (foldl (\<lambda>b jl. markLineAsParsed b (Some (fst jl))) b ls) = rawDiff b"
  "filename (foldl (\<lambda>b jl. markLineAsParsed b (Some (fst jl))) b ls) = filename b"
  by (induction ls arbitrary: b) simp_all

lemma mark_fold_parsed [simp]:
  "lineIsParsed (foldl (\<lambda>b jl. markLineAsParsed b (Some (fst jl))) b ls) (Some i) =
     (lineIsParsed b (Some i) \<or> i \<in> fst ` set ls)"
  by (induction ls arbitrary: b) auto

lemma mark_fold_distinct:
  "distinct (numeric_entries (parsedLines b)) \<Longrightarrow>
   distinct (numeric_entries (parsedLines (foldl (\<lambda>b jl. markLineAsParsed b (Some (fst jl))) b ls)))"
  by (induction ls arbitrary: b) (simp_all add: markLineAsParsed_distinct)

lemma page_join_consumes_all:
  "getUnparsedLines2
     (foldl (\<lambda>b jl. markLineAsParsed b (Some (fst jl))) b (getUnparsedLines2 b False)) g = []"
proof -
  let ?b' = "foldl (\<lambda>b jl. markLineAsParsed b (Some (fst jl))) b (getUnparsedLines2 b False)"
  have n: "getNumLines ?b' = getNumLines b" by (simp add: getNumLines_def)
  have "lineIsParsed ?b' (Some i)" if "i < getNumLines b" for i
  proof (cases "lineIsParsed b (Some i)")
    case True then show ?thesis by simp
  next
    case False
    then have "i \<in> fst ` set (getUnparsedLines2 b False)"
      using that by (force simp: getUnparsedLines2_closed line_key_def image_iff)
    then show ?thesis by simp
  qed
  then show ?thesis
    by (simp add: getUnparsedLines2_closed[of ?b'] n filter_empty_conv)
qed


lemma memberof_fallback_text [simp]:
  "src (memberof_fallback b s) = src b"
  "parsedLines (memberof_fallback b s) = parsedLines b"
  "lineNumber (memberof_fallback b s) = lineNumber b"
  "rawDiff (memberof_fallback b s) = rawDiff b"
  "filename (memberof_fallback b s) = filename b"
  by (simp_all add: memberof_fallback_def split: option.splits)

lemma getUnparsedLines2_cong:
  "src b' = src b \<Longrightarrow> parsedLines b' = parsedLines b \<Longrightarrow> lineNumber b' = lineNumber b \<Longrightarrow>
   rawDiff b' = rawDiff b \<Longrightarrow> getUnparsedLines2 b' g = getUnparsedLines2 b g"
  by (simp add: getUnparsedLines2_closed getNumLines_def line_key_def getLine_def
        localToGlobalLineNumber_def lineIsParsed.simps)

lemma branch_block [simp]:
  "fst (page_branch b pc s) =
     foldl (\<lambda>b jl. markLineAsParsed b (Some (fst jl))) b (getUnparsedLines2 b False)"
  "fst (class_branch b cc s) = b"
  "fst (library_branch b lc s) = b"
  "fst (function_branch b fc s) = b"
  "fst (method_branch b mc s) = memberof_fallback b s"
  "fst (property_branch b pc' s) = memberof_fallback b s"
  by (simp_all add: page_branch_def class_branch_def library_branch_def function_branch_def
        method_branch_def property_branch_def Let_def split: prod.splits list.splits)

lemma primary_branch_block:
  "(page b \<noteq> [] \<and> fst (primary_branch b s) =
        foldl (\<lambda>b jl. markLineAsParsed b (Some (fst jl))) b (getUnparsedLines2 b False))
   \<or> (page b = [] \<and> (fst (primary_branch b s) = b \<or> fst (primary_branch b s) = memberof_fallback b s))"
  by (simp add: primary_branch_def split: list.splits)


lemma unparsed_keys_distinct: "distinct (map fst (getUnparsedLines2 b True))"
proof -
  have "inj_on (localToGlobalLineNumber b) A" for A
    by (simp add: inj_on_def localToGlobalLineNumber_def)
  then show ?thesis
    by (simp add: getUnparsedLines2_closed line_key_def comp_def distinct_map)
qed

lemma unparsed_pass_errors:
  "errors (st_doc (unparsed_pass b s)) =
     errors (st_doc s) @
       (if getUnparsedLines2 b True = [] then []
        else [\<lparr> er_lineNumber = Some (lineNumber b), er_file = filename b,
                 er_message = unparsed_message (getUnparsedLines2 b True),
                 er_id = errorReportIdCounter (st_globals s) + 1 \<rparr>])"
  by (simp add: unparsed_pass_def Let_def)

lemma parse_lines_distinct:
  "parse_lines mk bad msg ls (cs, b, es, g) = Inr (cs', b', es', g') \<Longrightarrow>
   distinct (numeric_entries (parsedLines b)) \<Longrightarrow>
   distinct (numeric_entries (parsedLines b'))"
proof (induction ls arbitrary: cs b es g)
  case Nil
  then show ?case by simp
next
  case (Cons jl ls)
  obtain j line where jl: "jl = (j, line)" by (cases jl)
  show ?case
  proof (cases "mk line")
    case None
    then show ?thesis
      using Cons.prems Cons.IH jl
      by (auto simp: new_ErrorReport_def split: if_splits)
  next
    case (Some r)
    then show ?thesis
      using Cons.prems Cons.IH[of _ "markLineAsParsed b (Some j)"] jl
        markLineAsParsed_distinct[of b "Some j"]
      by (cases r) auto
  qed
qed

lemma parse_lines_var_distinct:
  "parse_lines_var mk bad msg ls v (cs, b, es, g) = Inr (v', cs', b', es', g') \<Longrightarrow>
   distinct (numeric_entries (parsedLines b)) \<Longrightarrow>
   distinct (numeric_entries (parsedLines b'))"
proof (induction ls arbitrary: v cs b es g)
  case Nil
  then show ?case by simp
next
  case (Cons jl ls)
  obtain j line where jl: "jl = (j, line)" by (cases jl)
  show ?case
  proof (cases "mk v line")
    case None
    then show ?thesis
      using Cons.prems Cons.IH jl
      by (auto simp: new_ErrorReport_def split: if_splits)
  next
    case (Some r)
    then show ?thesis
      using Cons.prems Cons.IH[of _ _ "markLineAsParsed b (Some j)"] jl
        markLineAsParsed_distinct[of b "Some j"]
      by (cases r) auto
  qed
qed

text \<open>
  C1. After the round of \<^verbatim>\<open>makeEntities\<close> for a block, from every state of the loop and whatever
  the tag parsers consumed: the object \<^verbatim>\<open>unparsed\<close> that the round lists in its report holds
  exactly the lines of the cleaned text that are not marked consumed, each under its global line
  number, each once and in order; the reports there were are kept, and the round adds one report
  for unparsed lines, with the file name and line number of the block and the message that
  lists \<^verbatim>\<open>unparsed\<close>, when \<^verbatim>\<open>unparsed\<close> is not empty, and none otherwise. In a page block the
  join of the page content consumes every line. A line number stands at most once in
  \<^verbatim>\<open>parsedLines\<close> after the round if it did so before (\<open>markLineAsParsed_distinct\<close>,
  \<open>parse_lines_distinct\<close> and \<open>parse_lines_var_distinct\<close> show the same for the tag parsers).
\<close>

theorem every_line_consumed_or_reported_once:
  "(let b' = fst (assemble_block block s); s' = snd (assemble_block block s);
        unparsed = getUnparsedLines2 b' True;
        n = length (errors (st_doc s))
    in unparsed = map (\<lambda>i. (localToGlobalLineNumber b' i, getLine b' i))
                      (filter (\<lambda>i. \<not> lineIsParsed b' (Some i)) [0..<getNumLines b'])
     \<and> distinct (map fst unparsed)
     \<and> take n (errors (st_doc s')) = errors (st_doc s)
     \<and> map (\<lambda>e. (er_file e, er_lineNumber e, er_message e))
           (filter is_unparsed_report (drop n (errors (st_doc s')))) =
         (if unparsed = [] then []
          else [(filename b', Some (lineNumber b'), unparsed_message unparsed)])
     \<and> (page block \<noteq> [] \<longrightarrow> unparsed = [])
     \<and> (distinct (numeric_entries (parsedLines block))
          \<longrightarrow> distinct (numeric_entries (parsedLines b'))))"
proof -
  define b' where "b' = fst (primary_branch block s)"
  define s1 where "s1 = snd (primary_branch block s)"
  have ab: "assemble_block block s = (b', unparsed_pass b' (todo_pass b' s1))"
    by (simp add: assemble_block_def b'_def s1_def split: prod.splits)
  obtain new where new: "errors (st_doc s1) = errors (st_doc s) @ new"
    and nores: "filter is_unparsed_report new = []"
    using primary_branch_errors[of block s] unfolding s1_def by blast
  have e: "errors (st_doc (unparsed_pass b' (todo_pass b' s1))) =
     errors (st_doc s) @ new @
       (if getUnparsedLines2 b' True = [] then []
        else [\<lparr> er_lineNumber = Some (lineNumber b'), er_file = filename b',
                 er_message = unparsed_message (getUnparsedLines2 b' True),
                 er_id = errorReportIdCounter (st_globals (todo_pass b' s1)) + 1 \<rparr>])"
    by (simp add: unparsed_pass_errors new)
  have c1: "getUnparsedLines2 b' True = map (\<lambda>i. (localToGlobalLineNumber b' i, getLine b' i))
                      (filter (\<lambda>i. \<not> lineIsParsed b' (Some i)) [0..<getNumLines b'])"
    by (simp add: getUnparsedLines2_closed line_key_def)
  have c5: "getUnparsedLines2 b' True = []" if "page block \<noteq> []"
    using primary_branch_block[of block s] that page_join_consumes_all[of block True]
    by (simp add: b'_def)
  have c6: "distinct (numeric_entries (parsedLines b'))"
    if "distinct (numeric_entries (parsedLines block))"
    using primary_branch_block[of block s] that mark_fold_distinct[of block "getUnparsedLines2 block False"]
    by (auto simp: b'_def)
  show ?thesis
    unfolding Let_def ab fst_conv snd_conv e
    using c1 c5 c6 nores unparsed_keys_distinct[of b'] by simp
qed



theorem every_line_consumed_or_reported_once_witness:
  "page stray_line_block = [] \<and> distinct (numeric_entries (parsedLines stray_line_block))
   \<and> getUnparsedLines2 (fst (assemble_block stray_line_block init_MkState)) True
       = [(5, ''some stray text'')]
   \<and> map er_message (errors (st_doc (snd (assemble_block stray_line_block init_MkState))))
       = [''There was unparsed code:'' @ [CHR 0x0A, CHR 0x0A] @ ''Line 5: some stray text''
            @ [CHR 0x0A]]
   \<and> distinct (numeric_entries (parsedLines (fst (assemble_block stray_line_block init_MkState))))
   \<and> page prose_page_block \<noteq> []
   \<and> getUnparsedLines2 (fst (assemble_block prose_page_block init_MkState)) True = []
   \<and> errors (st_doc (snd (assemble_block prose_page_block init_MkState))) = []"
  using every_line_consumed_or_reported_once [of stray_line_block init_MkState]
    every_line_consumed_or_reported_once [of prose_page_block init_MkState]
  by (simp add: stray_line_block_def prose_page_block_def assembly_eval block_eval
        numeric_entries_def unparsed_message_def unparsed_line_text_def show_nat.simps digit_char_def
        is_unparsed_report_def
        Entity.defs ClassEntity.defs PageEntity.defs)


section \<open>Inheritance lists\<close>

lemma recurseInheritance_chain:
  "chain_within k d name = Some l \<Longrightarrow>
   recurseInheritance d name nameList = Some (Inr (nameList @ l))"
proof (induction k arbitrary: name nameList l)
  case 0
  then show ?case by simp
next
  case (Suc k)
  show ?case
  proof (cases "nameToClass d name")
    case (Inl e)
    then show ?thesis using Suc.prems by simp
  next
    case (Inr v)
    show ?thesis
    proof (cases v)
      case JsFalse
      then show ?thesis using Suc.prems Inr by (subst recurseInheritance.simps) auto
    next
      case OtherValue
      then show ?thesis using Suc.prems Inr by simp
    next
      case (IsClass c)
      show ?thesis
      proof (cases "getExtendedClassName c")
        case None
        then show ?thesis
          using Suc.prems Inr IsClass by (subst recurseInheritance.simps) auto
      next
        case (Some extended)
        show ?thesis
        proof (cases "extended = []")
          case True
          then show ?thesis
            using Suc.prems Inr IsClass Some by (subst recurseInheritance.simps) auto
        next
          case False
          then obtain l' where l': "chain_within k d extended = Some l'" and l: "l = name # l'"
            using Suc.prems Inr IsClass Some by auto
          from Suc.IH[OF l', of "nameList @ [name]"] show ?thesis
            using False Inr IsClass Some l by (subst recurseInheritance.simps) auto
        qed
      qed
    qed
  qed
qed

text \<open>
  C2, as amended. When the index has been made and the chain of \<^verbatim>\<open>@extends\<close> names from the
  class ends after finitely many steps, at a name for which \<^verbatim>\<open>nameToClass\<close> gives \<^verbatim>\<open>false\<close> or at a
  class that extends nothing, without meeting a name for which \<^verbatim>\<open>nameToClass\<close> gives a value
  that is no class entity, \<^verbatim>\<open>getInheritanceList\<close> returns, and its result is the list of the names
  along the chain.
\<close>

theorem getInheritanceList_returns_when_chain_ends:
  "chain_within k d (class_getName c) = Some l \<Longrightarrow> getInheritanceList d c = Some (Inr l)"
  unfolding getInheritanceList_def using recurseInheritance_chain[of k d "class_getName c" l "[]"]
  by simp

lemma recurseInheritance_cycle:
  assumes cl: "extends_closed d names"
    and r: "recurseInheritance d name nameList = Some y"
  shows "name \<notin> set names"
proof -
  have "d = d \<longrightarrow> name \<notin> set names"
  proof (rule recurseInheritance.raw_induct
      [where P = "\<lambda>d' n l r. d' = d \<longrightarrow> n \<notin> set names", OF _ r])
    fix f :: "Documentation \<Rightarrow> string \<Rightarrow> string list \<Rightarrow> (exn + string list) option"
      and d' :: Documentation and n :: string and l :: "string list"
      and r :: "exn + string list"
    assume IH: "\<And>d'' n' l' r'. f d'' n' l' = Some r' \<Longrightarrow> d'' = d \<longrightarrow> n' \<notin> set names"
    assume step: "(case nameToClass d' n of
        Inl e \<Rightarrow> Some (Inl e)
      | Inr v \<Rightarrow>
          (case v of
             JsFalse \<Rightarrow> Some (Inr (l @ [n]))
           | OtherValue \<Rightarrow> Some (Inl TypeError)
           | IsClass c \<Rightarrow>
               (case getExtendedClassName c of
                  None \<Rightarrow> Some (Inr (l @ [n]))
                | Some extended \<Rightarrow>
                    if extended = [] then Some (Inr (l @ [n]))
                    else f d' extended (l @ [n])))) = Some r"
    show "d' = d \<longrightarrow> n \<notin> set names"
    proof
      assume d: "d' = d"
      show "n \<notin> set names"
      proof
        assume n: "n \<in> set names"
        from cl n have "case nameToClass d n of
                      Inl e \<Rightarrow> False
                    | Inr v \<Rightarrow>
                        (case v of
                           IsClass c \<Rightarrow> (case getExtendedClassName c of
                                          None \<Rightarrow> False
                                        | Some e \<Rightarrow> e \<noteq> [] \<and> e \<in> set names)
                         | OtherValue \<Rightarrow> False
                         | JsFalse \<Rightarrow> False)"
          unfolding extends_closed_def list_all_iff by blast
        then obtain c e where c: "nameToClass d n = Inr (IsClass c)"
          and e: "getExtendedClassName c = Some e" and e2: "e \<noteq> []" and e3: "e \<in> set names"
          by (auto split: option.splits sum.splits looked.splits)
        from step have "f d e (l @ [n]) = Some r"
          using c e e2 d by simp
        from IH[OF this] e3 show False by simp
      qed
    qed
  qed
  then show ?thesis by simp
qed

lemma getInheritanceList_cycle:
  "extends_closed d names \<Longrightarrow> class_getName c \<in> set names \<Longrightarrow> getInheritanceList d c = None"
  using recurseInheritance_cycle[of d names "class_getName c" "[]"]
  by (cases "getInheritanceList d c") (auto simp: getInheritanceList_def)

lemma cycle_doc_classes:
  "map class_getName (classes cycle_doc) = [''C'', ''D'']"
  "map getExtendedClassName (classes cycle_doc) = [Some ''D'', Some ''C'']"
  "extends_closed cycle_doc [''C'', ''D'']"
  by (simp_all add: cycle_doc_def class_block_def assembly_eval block_eval Entity.defs
        ClassEntity.defs extends_closed_def getExtendedClassName_def)

text \<open>
  The claim as stated fails: for the classes \<^verbatim>\<open>C\<close> extending \<^verbatim>\<open>D\<close> and \<^verbatim>\<open>D\<close> extending \<^verbatim>\<open>C\<close>,
  \<^verbatim>\<open>getInheritanceList\<close> does not return on either class. \<open>getInheritanceList_cycle\<close> shows the
  same for every index and every list of names that extend each other.
\<close>

theorem getInheritanceList_cycle_counterexample:
  "map class_getName (classes cycle_doc) = [''C'', ''D'']
   \<and> map getExtendedClassName (classes cycle_doc) = [Some ''D'', Some ''C'']
   \<and> map (getInheritanceList cycle_doc) (classes cycle_doc) = [None, None]"
proof -
  obtain c1 c2 where cs: "classes cycle_doc = [c1, c2]"
    and n: "class_getName c1 = ''C''" "class_getName c2 = ''D''"
    using cycle_doc_classes(1) by (auto simp: map_eq_Cons_conv)
  have "getInheritanceList cycle_doc c1 = None" "getInheritanceList cycle_doc c2 = None"
    using getInheritanceList_cycle[OF cycle_doc_classes(3)] n by simp_all
  then show ?thesis using cycle_doc_classes cs by simp
qed

theorem getInheritanceList_returns_when_chain_ends_witness:
  "map class_getName (classes chain_doc) = [''A'', ''B'']
   \<and> map getExtendedClassName (classes chain_doc) = [None, Some ''A'']
   \<and> chain_within 2 chain_doc (class_getName (classes chain_doc ! 1)) = Some [''B'', ''A'']
   \<and> getInheritanceList chain_doc (classes chain_doc ! 1) = Some (Inr [''B'', ''A''])"
proof -
  have e: "map class_getName (classes chain_doc) = [''A'', ''B'']"
     "map getExtendedClassName (classes chain_doc) = [None, Some ''A'']"
     "chain_within 2 chain_doc (class_getName (classes chain_doc ! 1)) = Some [''B'', ''A'']"
    by (simp_all add: chain_doc_def class_block_def assembly_eval block_eval Entity.defs
        ClassEntity.defs getExtendedClassName_def numeral_2_eq_2)
  from getInheritanceList_returns_when_chain_ends[OF e(3)] e show ?thesis by simp
qed

text \<open>
  Outside the amended claim: the class \<^verbatim>\<open>C\<close> extends \<^verbatim>\<open>toString\<close>, which no class is named. The
  index inherits a function of that name, and \<^verbatim>\<open>getInheritanceList\<close> throws; so does it on every
  documentation whose index has not been made.
\<close>

lemma getInheritanceList_inherited_name_throws:
  "map class_getName (classes inherited_doc) = [''C'']
   \<and> map getExtendedClassName (classes inherited_doc) = [Some ''toString'']
   \<and> map (getInheritanceList inherited_doc) (classes inherited_doc) = [Some (Inl TypeError)]"
  by (simp add: inherited_doc_def class_block_def assembly_eval block_eval Entity.defs
        ClassEntity.defs getExtendedClassName_def getInheritanceList_def
        recurseInheritance.simps)

lemma getInheritanceList_without_index_throws:
  "name2class d = None \<Longrightarrow> getInheritanceList d c = Some (Inl TypeError)"
  by (simp add: getInheritanceList_def recurseInheritance.simps nameToClass_def)


section \<open>Tag lines without the optional text\<close>

subsection \<open>The first match of a pattern\<close>

lemma first_Cons [simp]: "first (x # xs) = Some x" "first [] = None"
  by (simp_all add: first_def)

lemma first_eq_Some: "first xs = Some y \<longleftrightarrow> (\<exists>ys. xs = y # ys)"
  by (cases xs) (auto simp: first_def)




lemma first_Alt1: "first (ms a x) = Some y \<Longrightarrow> first (ms (Alt a b) x) = Some y"
  by (cases x) (auto simp: first_eq_Some)



















subsection \<open>The captures of a match\<close>









subsection \<open>The commands that a loop makes\<close>
















section \<open>A rejected class block and the class of later methods\<close>

lemma erase_new [simp]:
  "erase_ids (fst (new_PageEntity bl pc ct g))
     = \<lparr> ent_block = bl, ent_id = 0, ent_globalId = 0, pg_pageCommand = pc, pg_content = ct \<rparr>"
  "erase_ids (fst (new_ClassEntity bl cc ps ex br de exs g))
     = \<lparr> ent_block = bl, ent_id = 0, ent_globalId = 0, ce_classCommand = cc,
         ce_paramCommands = ps, ce_extendsCommand = ex, ce_briefCommand = br,
         ce_descriptionCommand = de, ce_exampleCommands = exs, ce_methodEntities = [],
         ce_propertyEntities = [] \<rparr>"
  "erase_ids (fst (new_LibraryEntity bl lc vc br de g))
     = \<lparr> ent_block = bl, ent_id = 0, ent_globalId = 0, le_libraryCommand = lc,
         le_versionCommand = vc, le_briefCommand = br, le_descriptionCommand = de \<rparr>"
  "erase_ids (fst (new_FunctionEntity bl fc ps rt br de exs g))
     = \<lparr> ent_block = bl, ent_id = 0, ent_globalId = 0, fe_functionCommand = fc,
         fe_paramCommands = ps, fe_returnCommand = rt, fe_briefCommand = br,
         fe_descriptionCommand = de, fe_exampleCommand = exs \<rparr>"
  "erase_ids (fst (new_MethodEntity bl mc mo ps br rt g))
     = \<lparr> ent_block = bl, ent_id = 0, ent_globalId = 0, me_methodCommand = mc,
         me_memberofCommand = mo, me_paramCommands = ps, me_briefCommand = br,
         me_returnCommand = rt \<rparr>"
  "erase_ids (fst (new_PropertyEntity bl pc' mo br de g))
     = \<lparr> ent_block = bl, ent_id = 0, ent_globalId = 0, pe_propertyCommand = pc',
         pe_memberofCommand = mo, pe_briefCommand = br, pe_descriptionCommand = de \<rparr>"
  "erase_ids (fst (new_TodoEntity bl tc g))
     = \<lparr> ent_block = bl, ent_id = 0, ent_globalId = 0, te_todoCommand = tc \<rparr>"
  by (simp_all add: erase_ids_def new_PageEntity_def new_ClassEntity_def new_LibraryEntity_def
        new_FunctionEntity_def new_MethodEntity_def new_PropertyEntity_def new_TodoEntity_def
        new_Entity_def Let_def Entity.defs PageEntity.defs ClassEntity.defs LibraryEntity.defs
        FunctionEntity.defs MethodEntity.defs PropertyEntity.defs TodoEntity.defs)

lemma class_getName_erase [simp]: "class_getName (erase_ids c) = class_getName c"
  by (simp add: class_getName_def erase_ids_def)

lemma erase_ids_class_getName:
  "erase_ids c1 = erase_ids c2 \<Longrightarrow> class_getName c1 = class_getName c2"
  by (metis class_getName_erase)

lemma memberof_fallback_view:
  "map_option erase_ids (st_lastClass s1) = map_option erase_ids (st_lastClass s2) \<Longrightarrow>
   memberof_fallback b s1 = memberof_fallback b s2"
  by (cases "st_lastClass s1"; cases "st_lastClass s2")
     (auto simp: memberof_fallback_def dest: erase_ids_class_getName)


lemma new_error_views_append:
  "errors (st_doc s') = errors (st_doc s) @ new \<Longrightarrow>
   new_error_views s s' = map erase_er_id new"
  by (simp add: new_error_views_def)

lemma erase_push [simp]:
  "new_error_views s (push_error f ln msg s)
     = [\<lparr> er_lineNumber = ln, er_file = f, er_message = msg, er_id = 0 \<rparr>]"
  by (simp add: new_error_views_def erase_er_id_def)

lemma entities_view_push [simp]: "entities_view (push_error f ln msg s) = entities_view s"
  by (simp add: entities_view_def push_error_def new_ErrorReport_def)

lemma page_branch_view:
  "entities_view s1 = entities_view s2 \<Longrightarrow>
   same_step (page_branch b pc s1) (page_branch b pc s2) s1 s2"
  by (simp add: same_step_def page_branch_def entities_view_def new_error_views_def Let_def
        case_prod_unfold)

lemma class_branch_view:
  "entities_view s1 = entities_view s2 \<Longrightarrow>
   same_step (class_branch b cc s1) (class_branch b cc s2) s1 s2"
  by (simp add: same_step_def class_branch_def entities_view_def new_error_views_def Let_def
        case_prod_unfold push_error_def new_ErrorReport_def erase_er_id_def)

lemma library_branch_view:
  "entities_view s1 = entities_view s2 \<Longrightarrow>
   same_step (library_branch b lc s1) (library_branch b lc s2) s1 s2"
  by (simp add: same_step_def library_branch_def entities_view_def new_error_views_def Let_def
        case_prod_unfold)

lemma function_branch_view:
  "entities_view s1 = entities_view s2 \<Longrightarrow>
   same_step (function_branch b fc s1) (function_branch b fc s2) s1 s2"
  by (simp add: same_step_def function_branch_def entities_view_def new_error_views_def Let_def
        case_prod_unfold)

lemma method_branch_view:
  assumes "entities_view s1 = entities_view s2"
  shows "same_step (method_branch b mc s1) (method_branch b mc s2) s1 s2"
proof -
  have "memberof_fallback b s1 = memberof_fallback b s2"
    using assms by (intro memberof_fallback_view) (simp add: entities_view_def)
  then show ?thesis
    using assms
    by (simp add: same_step_def method_branch_def entities_view_def new_error_views_def Let_def
        case_prod_unfold split: list.splits)
qed

lemma property_branch_view:
  assumes "entities_view s1 = entities_view s2"
  shows "same_step (property_branch b pc s1) (property_branch b pc s2) s1 s2"
proof -
  have "memberof_fallback b s1 = memberof_fallback b s2"
    using assms by (intro memberof_fallback_view) (simp add: entities_view_def)
  then show ?thesis
    using assms
    by (simp add: same_step_def property_branch_def entities_view_def new_error_views_def
        Let_def case_prod_unfold push_error_def new_ErrorReport_def erase_er_id_def
        split: list.splits)
qed

lemma same_step_refl_block:
  "entities_view s1 = entities_view s2 \<Longrightarrow> same_step (b, s1) (b, s2) s1 s2"
  by (simp add: same_step_def new_error_views_def)

lemma primary_branch_view:
  "entities_view s1 = entities_view s2 \<Longrightarrow>
   same_step (primary_branch b s1) (primary_branch b s2) s1 s2"
  by (simp add: primary_branch_def page_branch_view class_branch_view library_branch_view
        function_branch_view method_branch_view property_branch_view same_step_refl_block
        split: list.splits)


lemma todo_pass_view:
  "entities_view (todo_pass b s) = entities_view s"
  using todo_pass_shape[of b s] by (auto simp: entities_view_def)

lemma unparsed_pass_view: "entities_view (unparsed_pass b s) = entities_view s"
  by (simp add: unparsed_pass_def Let_def)

lemma assemble_block_errors_prefix:
  "\<exists>new. errors (st_doc (snd (assemble_block b s))) = errors (st_doc s) @ new"
  using primary_branch_errors[of b s]
  by (auto simp: assemble_block_def case_prod_unfold unparsed_pass_errors)

lemma assemble_block_view:
  assumes "entities_view s1 = entities_view s2"
  shows "same_step (assemble_block b s1) (assemble_block b s2) s1 s2"
proof -
  have p: "same_step (primary_branch b s1) (primary_branch b s2) s1 s2"
    using assms by (rule primary_branch_view)
  obtain n1 where n1: "errors (st_doc (snd (primary_branch b s1))) = errors (st_doc s1) @ n1"
    using primary_branch_errors[of b s1] by blast
  obtain n2 where n2: "errors (st_doc (snd (primary_branch b s2))) = errors (st_doc s2) @ n2"
    using primary_branch_errors[of b s2] by blast
  have e: "map erase_er_id n1 = map erase_er_id n2"
    using p new_error_views_append[OF n1] new_error_views_append[OF n2]
    by (simp add: same_step_def)
  show ?thesis
    using p e n1 n2
    by (simp add: same_step_def assemble_block_def case_prod_unfold todo_pass_view
          unparsed_pass_view unparsed_pass_errors new_error_views_def erase_er_id_def)
qed

lemma assemble_blocks_snoc:
  "assemble_blocks (bs @ [x]) s = snd (assemble_block x (assemble_blocks bs s))"
  by (simp add: assemble_blocks_def)

lemma assemble_blocks_Cons:
  "assemble_blocks (x # bs) s = assemble_blocks bs (snd (assemble_block x s))"
  by (simp add: assemble_blocks_def)

lemma assemble_blocks_errors_prefix:
  "\<exists>new. errors (st_doc (assemble_blocks bs s)) = errors (st_doc s) @ new"
proof (induction bs rule: rev_induct)
  case Nil
  then show ?case by (simp add: assemble_blocks_def)
next
  case (snoc x bs)
  then obtain n where "errors (st_doc (assemble_blocks bs s)) = errors (st_doc s) @ n" by blast
  then show ?case
    using assemble_block_errors_prefix[of x "assemble_blocks bs s"]
    by (auto simp: assemble_blocks_snoc)
qed

lemma assemble_blocks_view:
  assumes "entities_view s1 = entities_view s2"
  shows "entities_view (assemble_blocks bs s1) = entities_view (assemble_blocks bs s2)
       \<and> new_error_views s1 (assemble_blocks bs s1) = new_error_views s2 (assemble_blocks bs s2)"
proof (induction bs rule: rev_induct)
  case Nil
  then show ?case using assms by (simp add: assemble_blocks_def new_error_views_def)
next
  case (snoc x bs)
  let ?t1 = "assemble_blocks bs s1" and ?t2 = "assemble_blocks bs s2"
  have st: "same_step (assemble_block x ?t1) (assemble_block x ?t2) ?t1 ?t2"
    using snoc by (intro assemble_block_view) simp
  obtain a1 where a1: "errors (st_doc ?t1) = errors (st_doc s1) @ a1"
    using assemble_blocks_errors_prefix[of bs s1] by blast
  obtain a2 where a2: "errors (st_doc ?t2) = errors (st_doc s2) @ a2"
    using assemble_blocks_errors_prefix[of bs s2] by blast
  obtain b1 where b1: "errors (st_doc (snd (assemble_block x ?t1))) = errors (st_doc ?t1) @ b1"
    using assemble_block_errors_prefix[of x ?t1] by blast
  obtain b2 where b2: "errors (st_doc (snd (assemble_block x ?t2))) = errors (st_doc ?t2) @ b2"
    using assemble_block_errors_prefix[of x ?t2] by blast
  have "map erase_er_id a1 = map erase_er_id a2"
    using snoc new_error_views_append[OF a1] new_error_views_append[OF a2] by simp
  moreover have "map erase_er_id b1 = map erase_er_id b2"
    using st new_error_views_append[OF b1] new_error_views_append[OF b2]
    by (simp add: same_step_def)
  ultimately show ?case
    using st a1 a2 b1 b2
    by (simp add: assemble_blocks_snoc same_step_def new_error_views_def)
qed


lemma rejected_class_block_step:
  assumes "page b = []" and "first (classs b) = Some cc"
    and "ret b \<noteq> [] \<or> extends_itself b cc"
  shows "st_lastClass (snd (assemble_block b s)) = st_lastClass s"
    and "entities_view (snd (assemble_block b s)) = entities_view s"
proof -
  obtain cs where c: "classs b = cc # cs"
    using assms(2) by (cases "classs b") (auto simp: first_def)
  have pb: "snd (primary_branch b s) = snd (class_branch b cc s)"
    using assms(1) c by (simp add: primary_branch_def)
  have cl: "st_lastClass (snd (class_branch b cc s)) = st_lastClass s"
    "entities_view (snd (class_branch b cc s)) = entities_view s"
    using assms(3) by (auto simp: class_branch_def Let_def)
  show "st_lastClass (snd (assemble_block b s)) = st_lastClass s"
    using pb cl(1) by (simp add: assemble_block_def case_prod_unfold unparsed_pass_def Let_def)
  show "entities_view (snd (assemble_block b s)) = entities_view s"
    using pb cl(2)
    by (simp add: assemble_block_def case_prod_unfold unparsed_pass_view todo_pass_view)
qed

text \<open>
  C10. A class block is rejected when it has a \<^verbatim>\<open>@return\<close> command or extends itself. From
  every state of the loop, the round for such a block leaves \<^verbatim>\<open>lastClass\<close> as it was, so the
  fallback gives every later block the same \<^verbatim>\<open>@memberof\<close> as before; and whatever blocks
  follow, the loop ends with the same pages, classes, functions, library, methods and
  properties (sequence ids apart) and the same \<^verbatim>\<open>lastClass\<close> as without the rejected block, and
  its reports are those up to and including the rejected block followed by the reports that the
  later blocks give without it (ids apart). The todo entities of the rejected block are still
  made.
\<close>

theorem rejected_class_block_keeps_lastClass:
  assumes "page b = []" and "first (classs b) = Some cc"
    and "ret b \<noteq> [] \<or> extends_itself b cc"
  shows "st_lastClass (snd (assemble_block b s)) = st_lastClass s
       \<and> memberof_fallback b' (snd (assemble_block b s)) = memberof_fallback b' s
       \<and> entities_view (assemble_blocks (b # bs) s) = entities_view (assemble_blocks bs s)
       \<and> map erase_er_id (errors (st_doc (assemble_blocks (b # bs) s)))
           = map erase_er_id (errors (st_doc (snd (assemble_block b s))))
             @ new_error_views s (assemble_blocks bs s)"
proof -
  let ?s' = "snd (assemble_block b s)"
  note r = rejected_class_block_step[OF assms, of s]
  have v: "entities_view (assemble_blocks bs ?s') = entities_view (assemble_blocks bs s)"
    "new_error_views ?s' (assemble_blocks bs ?s') = new_error_views s (assemble_blocks bs s)"
    using assemble_blocks_view[OF r(2), of bs] by simp_all
  obtain n where n: "errors (st_doc (assemble_blocks bs ?s')) = errors (st_doc ?s') @ n"
    using assemble_blocks_errors_prefix[of bs ?s'] by blast
  have "map erase_er_id (errors (st_doc (assemble_blocks bs ?s')))
          = map erase_er_id (errors (st_doc ?s')) @ new_error_views ?s' (assemble_blocks bs ?s')"
    using n by (simp add: new_error_views_def)
  then show ?thesis
    using r v by (simp add: assemble_blocks_Cons memberof_fallback_def)
qed


theorem rejected_class_block_keeps_lastClass_witness:
  "page class_return_block = [] \<and> first (classs class_return_block) = Some (ClassCommand ''Foo'')
   \<and> ret class_return_block \<noteq> []
   \<and> map_option class_getName (st_lastClass after_good_class) = Some ''Good''
   \<and> map_option class_getName
         (st_lastClass (snd (assemble_block class_return_block after_good_class))) = Some ''Good''
   \<and> map method_getClassName
         (methods (st_doc (assemble_blocks [class_return_block, plain_method_block]
                             after_good_class))) = [Some ''Good'']
   \<and> entities_view (assemble_blocks [class_return_block, plain_method_block] after_good_class)
       = entities_view (assemble_blocks [plain_method_block] after_good_class)"
proof -
  have h: "page class_return_block = []"
    "first (classs class_return_block) = Some (ClassCommand ''Foo'')"
    "ret class_return_block \<noteq> []"
    by (simp_all add: class_return_block_def first_def block_eval)
  have g: "map_option class_getName (st_lastClass after_good_class) = Some ''Good''"
    by (simp add: after_good_class_def class_block_def assembly_eval block_eval
          Entity.defs ClassEntity.defs)
  have m: "map method_getClassName
         (methods (st_doc (assemble_blocks [plain_method_block] after_good_class)))
         = [Some ''Good'']"
    by (simp add: after_good_class_def class_block_def plain_method_block_def assembly_eval
          block_eval Entity.defs ClassEntity.defs MethodEntity.defs)
  have hd: "ret class_return_block \<noteq> [] \<or> extends_itself class_return_block (ClassCommand ''Foo'')"
    using h(3) by simp
  from rejected_class_block_keeps_lastClass[OF h(1) h(2) hd, of after_good_class plain_method_block "[plain_method_block]"]
  have c: "st_lastClass (snd (assemble_block class_return_block after_good_class))
             = st_lastClass after_good_class"
    "entities_view (assemble_blocks [class_return_block, plain_method_block] after_good_class)
       = entities_view (assemble_blocks [plain_method_block] after_good_class)"
    by simp_all
  have "map erase_ids (methods (st_doc (assemble_blocks [class_return_block, plain_method_block]
                             after_good_class)))
        = map erase_ids (methods (st_doc (assemble_blocks [plain_method_block] after_good_class)))"
    using c(2) by (simp add: entities_view_def)
  then have "map (method_getClassName \<circ> erase_ids)
           (methods (st_doc (assemble_blocks [class_return_block, plain_method_block]
                             after_good_class)))
        = map (method_getClassName \<circ> erase_ids)
           (methods (st_doc (assemble_blocks [plain_method_block] after_good_class)))"
    by (metis map_map)
  moreover have "method_getClassName \<circ> erase_ids = (method_getClassName :: MethodEntity \<Rightarrow> _)"
    by (rule ext) (simp add: method_getClassName_def erase_ids_def)
  ultimately show ?thesis using h g m c by simp
qed


section \<open>A method block after a class block\<close>

subsection \<open>The loop\<close>

lemma unparsed_pass_frame [simp]:
  "classes (st_doc (unparsed_pass b s)) = classes (st_doc s)"
  "methods (st_doc (unparsed_pass b s)) = methods (st_doc s)"
  "properties (st_doc (unparsed_pass b s)) = properties (st_doc s)"
  "st_lastClass (unparsed_pass b s) = st_lastClass s"
  "globalEntityCounter (st_globals (unparsed_pass b s)) = globalEntityCounter (st_globals s)"
  by (simp_all add: unparsed_pass_def Let_def push_error_def new_ErrorReport_def)

lemma primary_branch_grows:
  "\<exists>nc nm. classes (st_doc (snd (primary_branch b s))) = classes (st_doc s) @ nc
         \<and> methods (st_doc (snd (primary_branch b s))) = methods (st_doc s) @ nm"
  by (auto simp: primary_branch_def page_branch_def class_branch_def library_branch_def
        function_branch_def method_branch_def property_branch_def Let_def case_prod_unfold
        split: list.splits)

lemma assemble_block_grows:
  "\<exists>nc nm. classes (st_doc (snd (assemble_block b s))) = classes (st_doc s) @ nc
         \<and> methods (st_doc (snd (assemble_block b s))) = methods (st_doc s) @ nm"
  using primary_branch_grows[of b s] by (simp add: assemble_block_def case_prod_unfold)

lemma assemble_blocks_grows:
  "\<exists>nc nm. classes (st_doc (assemble_blocks bs s)) = classes (st_doc s) @ nc
         \<and> methods (st_doc (assemble_blocks bs s)) = methods (st_doc s) @ nm"
proof (induction bs rule: rev_induct)
  case Nil
  then show ?case by (simp add: assemble_blocks_def)
next
  case (snoc x bs)
  then show ?case
    using assemble_block_grows[of x "assemble_blocks bs s"]
    by (auto simp: assemble_blocks_snoc)
qed

lemma new_Entity_counter [simp]:
  "ent_globalId (fst (new_Entity bl nm g)) = globalEntityCounter g + 1"
  "globalEntityCounter (snd (new_Entity bl nm g)) = globalEntityCounter g + 1"
  by (simp_all add: new_Entity_def Let_def)

lemma new_ClassEntity_counter [simp]:
  "ent_globalId (fst (new_ClassEntity bl cc ps ex br de exs g)) = globalEntityCounter g + 1"
  "globalEntityCounter (snd (new_ClassEntity bl cc ps ex br de exs g)) = globalEntityCounter g + 1"
  "class_getName (fst (new_ClassEntity bl cc ps ex br de exs g)) = class_name cc"
  by (simp_all add: new_ClassEntity_def case_prod_unfold Entity.defs ClassEntity.defs
        class_getName_def)

lemma new_other_counter [simp]:
  "globalEntityCounter (snd (new_PageEntity bl pc ct g)) = globalEntityCounter g + 1"
  "globalEntityCounter (snd (new_LibraryEntity bl lc vc br de g)) = globalEntityCounter g + 1"
  "globalEntityCounter (snd (new_FunctionEntity bl fc ps rt br de exs g)) = globalEntityCounter g + 1"
  "globalEntityCounter (snd (new_MethodEntity bl mc mo ps br rt g)) = globalEntityCounter g + 1"
  "globalEntityCounter (snd (new_PropertyEntity bl pc' mo br de g)) = globalEntityCounter g + 1"
  "globalEntityCounter (snd (new_TodoEntity bl tc g)) = globalEntityCounter g + 1"
  by (simp_all add: new_PageEntity_def new_LibraryEntity_def new_FunctionEntity_def
        new_MethodEntity_def new_PropertyEntity_def new_TodoEntity_def case_prod_unfold)

lemma ids_ok_bump:
  "ids_ok s \<Longrightarrow> classes (st_doc s') = classes (st_doc s) \<Longrightarrow>
   globalEntityCounter (st_globals s) \<le> globalEntityCounter (st_globals s') \<Longrightarrow> ids_ok s'"
  by (auto simp: ids_ok_def list_all_iff)

lemma primary_branch_ids: "ids_ok s \<Longrightarrow> ids_ok (snd (primary_branch b s))"
  by (auto simp: primary_branch_def page_branch_def class_branch_def library_branch_def
        function_branch_def method_branch_def property_branch_def Let_def case_prod_unfold
        ids_ok_def list_all_iff push_error_def new_ErrorReport_def
        split: list.splits)


lemma todo_fold_counter:
  "globalEntityCounter (st_globals s) \<le>
   globalEntityCounter (st_globals (foldl (\<lambda>s' todoCommand.
              case new_TodoEntity [block] todoCommand (st_globals s') of
                (entity, g') \<Rightarrow>
                  s'\<lparr> st_doc := (st_doc s')\<lparr> todos := todos (st_doc s') @ [entity] \<rparr>,
                      st_globals := g' \<rparr>) s xs))"
proof (induction xs arbitrary: s)
  case Nil
  then show ?case by simp
next
  case (Cons x xs)
  let ?s1 = "case new_TodoEntity [block] x (st_globals s) of
                (entity, g') \<Rightarrow>
                  s\<lparr> st_doc := (st_doc s)\<lparr> todos := todos (st_doc s) @ [entity] \<rparr>,
                      st_globals := g' \<rparr>"
  have "globalEntityCounter (st_globals s) \<le> globalEntityCounter (st_globals ?s1)"
    by (simp add: case_prod_unfold)
  also have "\<dots> \<le> globalEntityCounter (st_globals (foldl (\<lambda>s' todoCommand.
              case new_TodoEntity [block] todoCommand (st_globals s') of
                (entity, g') \<Rightarrow>
                  s'\<lparr> st_doc := (st_doc s')\<lparr> todos := todos (st_doc s') @ [entity] \<rparr>,
                      st_globals := g' \<rparr>) ?s1 xs))"
    by (rule Cons.IH)
  finally show ?case by simp
qed

lemma todo_pass_counter:
  "globalEntityCounter (st_globals s) \<le> globalEntityCounter (st_globals (todo_pass b s))"
  unfolding todo_pass_def by (rule todo_fold_counter)

lemma todo_pass_ids: "ids_ok s \<Longrightarrow> ids_ok (todo_pass b s)"
  by (erule ids_ok_bump) (simp_all add: todo_pass_counter)

lemma assemble_block_ids:
  assumes "ids_ok s"
  shows "ids_ok (snd (assemble_block b s))"
proof -
  let ?b1 = "fst (primary_branch b s)" and ?s1 = "snd (primary_branch b s)"
  have "ids_ok (todo_pass ?b1 ?s1)"
    using primary_branch_ids[OF assms, of b] by (rule todo_pass_ids)
  then have "ids_ok (unparsed_pass ?b1 (todo_pass ?b1 ?s1))"
    by (rule ids_ok_bump) simp_all
  then show ?thesis by (simp add: assemble_block_def case_prod_unfold)
qed

lemma assemble_blocks_ids: "ids_ok s \<Longrightarrow> ids_ok (assemble_blocks bs s)"
proof (induction bs rule: rev_induct)
  case Nil
  then show ?case by (simp add: assemble_blocks_def)
next
  case (snoc x bs)
  then show ?case by (simp add: assemble_blocks_snoc assemble_block_ids)
qed


lemma assemble_block_after_primary [simp]:
  "classes (st_doc (snd (assemble_block b s))) = classes (st_doc (snd (primary_branch b s)))"
  "methods (st_doc (snd (assemble_block b s))) = methods (st_doc (snd (primary_branch b s)))"
  "st_lastClass (snd (assemble_block b s)) = st_lastClass (snd (primary_branch b s))"
  by (simp_all add: assemble_block_def case_prod_unfold)

lemma accepted_class_block_step:
  assumes "page cb = []" and "classs cb = ClassCommand baz # cs" and "ret cb = []"
    and "\<not> extends_itself cb (ClassCommand baz)"
  shows "\<exists>e. st_lastClass (snd (assemble_block cb s)) = Some e \<and> class_getName e = baz
            \<and> classes (st_doc (snd (assemble_block cb s))) = classes (st_doc s) @ [e]"
proof -
  have "primary_branch cb s = class_branch cb (ClassCommand baz) s"
    using assms(1,2) by (simp add: primary_branch_def)
  then show ?thesis
    using assms(3,4) by (simp add: class_branch_def Let_def case_prod_unfold)
qed

lemma fallback_method_block_step:
  assumes "page mb = []" and "classs mb = []" and "file' mb = []" and "library mb = []"
    and "func mb = []" and "method' mb = MethodCommand bar # rest" and "memberof mb = []"
    and "st_lastClass s = Some e" and "class_getName e = baz"
  shows "\<exists>m. methods (st_doc (snd (assemble_block mb s))) = methods (st_doc s) @ [m]
            \<and> method_getName m = bar \<and> method_getClassName m = Some baz
            \<and> ent_block m = [mb\<lparr> memberof := [MemberofCommand (Some baz)] \<rparr>]"
proof -
  have p: "primary_branch mb s = method_branch mb (MethodCommand bar) s"
    using assms(1-6) by (simp add: primary_branch_def)
  have f: "memberof_fallback mb s = mb\<lparr> memberof := [MemberofCommand (Some baz)] \<rparr>"
    using assms(7-9) by (simp add: memberof_fallback_def)
  show ?thesis
    unfolding assemble_block_after_primary p
    by (simp add: method_branch_def f Let_def case_prod_unfold new_MethodEntity_def
        new_Entity_def Entity.defs MethodEntity.defs method_getName_def
        method_getClassName_def)
qed


subsection \<open>The index and the passes after the loop\<close>

lemma grows_refl [simp]: "grows c c"
  by (simp add: grows_def)

lemma grows_trans: "grows a b \<Longrightarrow> grows b c \<Longrightarrow> grows a c"
  by (auto simp: grows_def)

lemma list_all2_grows_refl [simp]: "list_all2 grows cl cl"
  by (simp add: list_all2_refl)

lemma list_all2_grows_trans:
  "list_all2 grows a b \<Longrightarrow> list_all2 grows b c \<Longrightarrow> list_all2 grows a c"
  by (rule list_all2_trans[of grows grows grows]) (auto intro: grows_trans)

lemma later_state_refl [simp]: "later_state s s"
  by (simp add: later_state_def)

lemma later_state_trans: "later_state a b \<Longrightarrow> later_state b c \<Longrightarrow> later_state a c"
  by (auto simp: later_state_def intro: list_all2_grows_trans)

lemma grows_addMethod [simp]: "grows c (addMethod c m)"
  by (auto simp: grows_def addMethod_def class_getName_def)

lemma grows_addProperty [simp]: "grows c (addProperty c p)"
  by (auto simp: grows_def addProperty_def class_getName_def)

lemma list_all2_map_grows:
  "(\<And>c. grows c (f c)) \<Longrightarrow> list_all2 grows cl (map f cl)"
  by (induction cl) auto

lemma later_state_push_error [simp]: "later_state s (push_error f ln msg s)"
  by (simp add: later_state_def push_error_def new_ErrorReport_def)

lemma find_map_comp: "find P (map f xs) = map_option f (find (P \<circ> f) xs)"
  by (induction xs) auto

lemma find_append_case:
  "find P (xs @ ys) = (case find P xs of None \<Rightarrow> find P ys | Some x \<Rightarrow> Some x)"
  by (induction xs) auto

lemma find_Some_in: "find P xs = Some x \<Longrightarrow> x \<in> set xs \<and> P x"
  by (induction xs) (auto split: if_splits)

lemma find_exists: "x \<in> set xs \<Longrightarrow> P x \<Longrightarrow> \<exists>y. find P xs = Some y"
  by (induction xs) auto

lemma deref_grows:
  "list_all2 grows cl cl' \<Longrightarrow>
   (deref cl r = None \<and> deref cl' r = None)
   \<or> (\<exists>c c'. deref cl r = Some c \<and> deref cl' r = Some c' \<and> grows c c')"
proof (induction cl cl' rule: list_all2_induct)
  case Nil
  then show ?case by (simp add: deref_def)
next
  case (Cons x xs y ys)
  then show ?case by (auto simp: deref_def grows_def)
qed

lemma class_member_grows: "grows c c' \<Longrightarrow> class_member c' n = class_member c n"
  by (simp add: class_member_def grows_def)

text \<open>What the index gives for a name stays of the same kind while the classes grow.\<close>

lemma index_get_grows:
  assumes "list_all2 grows cl cl'"
  shows "(case index_get cl ix n of
            IsClass c \<Rightarrow> (\<exists>c'. index_get cl' ix n = IsClass c' \<and> grows c c')
          | OtherValue \<Rightarrow> index_get cl' ix n = OtherValue
          | JsFalse \<Rightarrow> index_get cl' ix n = JsFalse)"
proof -
  have d: "(deref cl r = None \<and> deref cl' r = None)
         \<or> (\<exists>c c'. deref cl r = Some c \<and> deref cl' r = Some c' \<and> grows c c')" for r
    using assms by (rule deref_grows)
  show ?thesis
  proof (cases "if n = ''__proto__'' then ix_proto ix else ix_own ix n")
    case (Some r)
    then show ?thesis using d[of r] by (auto simp: index_get_def)
  next
    case None
    show ?thesis
    proof (cases "ix_proto ix")
      case pn: None
      then show ?thesis using None by (auto simp: index_get_def split: if_splits)
    next
      case (Some r)
      then show ?thesis
        using None d[of r] class_member_grows
        by (auto simp: index_get_def split: if_splits)
    qed
  qed
qed

lemma nameToClass_later:
  assumes "later_state s s'"
  shows "nameToClass (st_doc s) k = Inr (IsClass c) \<Longrightarrow>
         \<exists>c'. nameToClass (st_doc s') k = Inr (IsClass c') \<and> grows c c'"
    and "(nameToClass (st_doc s') k = Inr OtherValue) = (nameToClass (st_doc s) k = Inr OtherValue)"
    and "(nameToClass (st_doc s') k = Inl e) = (nameToClass (st_doc s) k = Inl e)"
proof -
  have g: "list_all2 grows (classes (st_doc s)) (classes (st_doc s'))"
    and i: "name2class (st_doc s') = name2class (st_doc s)"
    using assms by (simp_all add: later_state_def)
  show "(nameToClass (st_doc s') k = Inl e) = (nameToClass (st_doc s) k = Inl e)"
    using i by (auto simp: nameToClass_def split: option.splits)
  show "nameToClass (st_doc s) k = Inr (IsClass c) \<Longrightarrow>
         \<exists>c'. nameToClass (st_doc s') k = Inr (IsClass c') \<and> grows c c'"
  proof (cases "name2class (st_doc s)")
    case None
    then show "nameToClass (st_doc s) k = Inr (IsClass c) \<Longrightarrow> ?thesis"
      by (simp add: nameToClass_def)
  next
    case (Some ix)
    then show "nameToClass (st_doc s) k = Inr (IsClass c) \<Longrightarrow> ?thesis"
      using i index_get_grows[OF g, of ix k] by (simp add: nameToClass_def)
  qed
  show "(nameToClass (st_doc s') k = Inr OtherValue) = (nameToClass (st_doc s) k = Inr OtherValue)"
  proof (cases "name2class (st_doc s)")
    case None
    then show ?thesis using i by (simp add: nameToClass_def)
  next
    case (Some ix)
    then show ?thesis
      using i index_get_grows[OF g, of ix k]
      by (cases "index_get (classes (st_doc s)) ix k") (auto simp: nameToClass_def)
  qed
qed

lemma attach_method_later: "attach_method s m = Inr s' \<Longrightarrow> later_state s s'"
proof -
  assume a: "attach_method s m = Inr s'"
  show ?thesis
  proof (cases "nameToClass (st_doc s) (js_str (method_getClassName m))")
    case (Inl e)
    then show ?thesis using a by (simp add: attach_method_def)
  next
    case (Inr v)
    show ?thesis
    proof (cases v)
      case (IsClass c)
      then show ?thesis
        using a Inr by (auto simp: attach_method_def later_state_def intro!: list_all2_map_grows)
    next
      case OtherValue
      then show ?thesis using a Inr by (simp add: attach_method_def)
    next
      case JsFalse
      then show ?thesis using a Inr by (auto simp: attach_method_def)
    qed
  qed
qed

lemma attach_property_later: "attach_property s p = Inr s' \<Longrightarrow> later_state s s'"
proof -
  assume a: "attach_property s p = Inr s'"
  show ?thesis
  proof (cases "nameToClass (st_doc s) (js_str (property_getClassName p))")
    case (Inl e)
    then show ?thesis using a by (simp add: attach_property_def)
  next
    case (Inr v)
    show ?thesis
    proof (cases v)
      case (IsClass c)
      then show ?thesis
        using a Inr
        by (auto simp: attach_property_def later_state_def intro!: list_all2_map_grows)
    next
      case OtherValue
      then show ?thesis using a Inr by (simp add: attach_property_def)
    next
      case JsFalse
      then show ?thesis using a Inr by (auto simp: attach_property_def)
    qed
  qed
qed

lemma attach_all_later:
  assumes "\<And>s x s'. f s x = Inr s' \<Longrightarrow> later_state s s'"
  shows "attach_all f s xs = Inr s' \<Longrightarrow> later_state s s'"
proof (induction xs arbitrary: s)
  case Nil
  then show ?case by simp
next
  case (Cons x xs)
  then obtain s1 where s1: "f s x = Inr s1" "attach_all f s1 xs = Inr s'"
    by (auto split: sum.splits)
  from assms[OF s1(1)] Cons.IH[OF s1(2)] show ?case by (rule later_state_trans)
qed

text \<open>A pass returns exactly when \<^verbatim>\<open>nameToClass\<close> gives a class entity or \<^verbatim>\<open>false\<close> for every class
  name.\<close>

lemma attach_method_returns:
  "(\<exists>s'. attach_method s m = Inr s') =
   (name2class (st_doc s) \<noteq> None
    \<and> nameToClass (st_doc s) (js_str (method_getClassName m)) \<noteq> Inr OtherValue)"
  by (auto simp: attach_method_def nameToClass_def split: option.splits looked.splits)

lemma attach_property_returns:
  "(\<exists>s'. attach_property s p = Inr s') =
   (name2class (st_doc s) \<noteq> None
    \<and> nameToClass (st_doc s) (js_str (property_getClassName p)) \<noteq> Inr OtherValue)"
  by (auto simp: attach_property_def nameToClass_def split: option.splits looked.splits)

lemma attach_all_returns:
  assumes later: "\<And>s x s'. f s x = Inr s' \<Longrightarrow> later_state s s'"
    and ret: "\<And>s x. (\<exists>s'. f s x = Inr s') =
                (name2class (st_doc s) \<noteq> None \<and> nameToClass (st_doc s) (key x) \<noteq> Inr OtherValue)"
    and ix: "name2class (st_doc s) \<noteq> None"
  shows "(\<exists>s'. attach_all f s xs = Inr s') =
         list_all (\<lambda>x. nameToClass (st_doc s) (key x) \<noteq> Inr OtherValue) xs"
  using ix
proof (induction xs arbitrary: s)
  case Nil
  then show ?case by simp
next
  case (Cons x xs)
  show ?case
  proof (cases "f s x")
    case (Inl e)
    then have "nameToClass (st_doc s) (key x) = Inr OtherValue"
      using ret[of s x] Cons.prems by auto
    then show ?thesis using Inl by simp
  next
    case (Inr s1)
    then have ok: "nameToClass (st_doc s) (key x) \<noteq> Inr OtherValue"
      using ret[of s x] by blast
    have l: "later_state s s1" using later[OF Inr] .
    then have i1: "name2class (st_doc s1) \<noteq> None"
      using Cons.prems by (simp add: later_state_def)
    have "list_all (\<lambda>x. nameToClass (st_doc s1) (key x) \<noteq> Inr OtherValue) xs
        = list_all (\<lambda>x. nameToClass (st_doc s) (key x) \<noteq> Inr OtherValue) xs"
      using nameToClass_later(2)[OF l] by simp
    then show ?thesis
      using Inr ok Cons.IH[OF i1] by simp
  qed
qed

lemma update_frame [simp]:
  "methods (update d) = methods d" "properties (update d) = properties d"
  "name2class (update d) \<noteq> None"
  by (simp_all add: update_def Let_def)

lemma post_pass_returns:
  "(\<exists>s4. post_pass s1 = Inr s4) = class_names_found s1"
proof -
  let ?s2 = "s1\<lparr> st_doc := update (st_doc s1) \<rparr>"
  have m: "(\<exists>s3. attach_all attach_method ?s2 (methods (st_doc ?s2)) = Inr s3) =
           list_all (\<lambda>m. nameToClass (st_doc ?s2) (js_str (method_getClassName m))
                           \<noteq> Inr OtherValue) (methods (st_doc ?s2))"
    by (rule attach_all_returns[of attach_method, OF attach_method_later attach_method_returns])
       simp_all
  show ?thesis
  proof (cases "attach_all attach_method ?s2 (methods (st_doc ?s2))")
    case (Inl e)
    then show ?thesis using m by (auto simp: post_pass_def class_names_found_def Let_def)
  next
    case (Inr s3)
    have l: "later_state ?s2 s3"
      using attach_all_later[of attach_method, OF attach_method_later Inr] .
    then have i3: "name2class (st_doc s3) \<noteq> None"
      and p3: "properties (st_doc s3) = properties (st_doc ?s2)"
      by (simp_all add: later_state_def)
    have "(\<exists>s4. attach_all attach_property s3 (properties (st_doc s3)) = Inr s4) =
           list_all (\<lambda>p. nameToClass (st_doc s3) (js_str (property_getClassName p))
                           \<noteq> Inr OtherValue) (properties (st_doc s3))"
      by (rule attach_all_returns[of attach_property, OF attach_property_later
            attach_property_returns i3])
    then have "(\<exists>s4. attach_all attach_property s3 (properties (st_doc s3)) = Inr s4) =
           list_all (\<lambda>p. nameToClass (st_doc ?s2) (js_str (property_getClassName p))
                           \<noteq> Inr OtherValue) (properties (st_doc ?s2))"
      using nameToClass_later(2)[OF l] p3 by simp
    then show ?thesis
      using Inr m by (auto simp: post_pass_def class_names_found_def Let_def)
  qed
qed

text \<open>\<^verbatim>\<open>makeEntities\<close> returns exactly when no method or property entity has a class name for
  which the index gives a value that is no class entity.\<close>

lemma makeEntities_returns:
  "(\<exists>r. makeEntities blocks errs g = Inr r) = class_names_found (loop_end blocks errs g)"
  using post_pass_returns[of "loop_end blocks errs g"]
  by (auto simp: makeEntities_def loop_end_def Let_def split: sum.splits)


lemma index_get_class:
  "index_get cl ix n = IsClass c \<longleftrightarrow>
   (\<exists>r. (if n = ''__proto__'' then ix_proto ix else ix_own ix n) = Some r \<and> deref cl r = Some c)"
  by (auto simp: index_get_def split: option.splits if_splits)

lemma attach_method_adds:
  assumes "nameToClass (st_doc s) (js_str (method_getClassName m)) = Inr (IsClass c)"
  shows "\<exists>s' c'. attach_method s m = Inr s'
             \<and> nameToClass (st_doc s') (js_str (method_getClassName m)) = Inr (IsClass c')
             \<and> m \<in> set (ce_methodEntities c') \<and> grows c c'"
proof -
  let ?k = "js_str (method_getClassName m)"
  obtain ix where ix: "name2class (st_doc s) = Some ix"
    and g: "index_get (classes (st_doc s)) ix ?k = IsClass c"
    using assms by (auto simp: nameToClass_def split: option.splits)
  obtain r where r: "(if ?k = ''__proto__'' then ix_proto ix else ix_own ix ?k) = Some r"
    and f: "deref (classes (st_doc s)) r = Some c"
    using g unfolding index_get_class by blast
  have id: "ent_globalId c = r"
    using find_Some_in[of "\<lambda>c. ent_globalId c = r" "classes (st_doc s)" c] f
    by (simp add: deref_def)
  let ?f = "\<lambda>c'. if ent_globalId c' = ent_globalId c then addMethod c' m else c'"
  let ?s' = "s\<lparr> st_doc := (st_doc s)\<lparr> classes := map ?f (classes (st_doc s)) \<rparr> \<rparr>"
  have a: "attach_method s m = Inr ?s'"
    using assms by (simp add: attach_method_def)
  have "(\<lambda>c. ent_globalId c = r) \<circ> ?f = (\<lambda>c. ent_globalId c = r)"
    by (rule ext) (simp add: addMethod_def)
  then have "deref (map ?f (classes (st_doc s))) r = Some (?f c)"
    using f by (simp add: deref_def find_map_comp)
  then have "index_get (map ?f (classes (st_doc s))) ix ?k = IsClass (addMethod c m)"
    unfolding index_get_class using r by simp
  then have "nameToClass (st_doc ?s') ?k = Inr (IsClass (addMethod c m))"
    using ix by (simp add: nameToClass_def)
  moreover have "m \<in> set (ce_methodEntities (addMethod c m))"
    by (simp add: addMethod_def)
  ultimately show ?thesis using a grows_addMethod by blast
qed

lemma attach_all_method_adds:
  "m \<in> set mts \<Longrightarrow>
   nameToClass (st_doc s) (js_str (method_getClassName m)) = Inr (IsClass c) \<Longrightarrow>
   attach_all attach_method s mts = Inr s' \<Longrightarrow>
   \<exists>c'. nameToClass (st_doc s') (js_str (method_getClassName m)) = Inr (IsClass c')
        \<and> m \<in> set (ce_methodEntities c') \<and> grows c c'"
proof (induction mts arbitrary: s c)
  case Nil
  then show ?case by simp
next
  case (Cons x mts)
  obtain s1 where s1: "attach_method s x = Inr s1" "attach_all attach_method s1 mts = Inr s'"
    using Cons.prems(3) by (auto split: sum.splits)
  show ?case
  proof (cases "m = x")
    case True
    obtain c1 where c1: "nameToClass (st_doc s1) (js_str (method_getClassName m))
                           = Inr (IsClass c1)" "m \<in> set (ce_methodEntities c1)" "grows c c1"
      using attach_method_adds[OF Cons.prems(2)] s1(1) True by auto
    have "later_state s1 s'"
      using attach_all_later[of attach_method, OF attach_method_later s1(2)] .
    then obtain c2 where c2: "nameToClass (st_doc s') (js_str (method_getClassName m))
                           = Inr (IsClass c2)" "grows c1 c2"
      using nameToClass_later(1)[OF _ c1(1)] by blast
    show ?thesis
      using c1 c2 grows_trans[OF c1(3) c2(2)] by (auto simp: grows_def)
  next
    case False
    then have m: "m \<in> set mts" using Cons.prems(1) by simp
    obtain c1 where c1: "nameToClass (st_doc s1) (js_str (method_getClassName m))
                           = Inr (IsClass c1)" "grows c c1"
      using nameToClass_later(1)[OF attach_method_later[OF s1(1)] Cons.prems(2)] by blast
    obtain c2 where c2: "nameToClass (st_doc s') (js_str (method_getClassName m))
                           = Inr (IsClass c2)"
        "m \<in> set (ce_methodEntities c2)" "grows c1 c2"
      using Cons.IH[OF m c1(1) s1(2)] by blast
    show ?thesis
      using c2 grows_trans[OF c1(2) c2(3)] by auto
  qed
qed

lemma index_fold:
  "(let ix = foldl (\<lambda>ix c. index_put ix (class_getName c) (ent_globalId c)) ix0 cl
    in if n = ''__proto__'' then ix_proto ix else ix_own ix n) =
     (case find (\<lambda>c. class_getName c = n) (rev cl) of
        Some c \<Rightarrow> Some (ent_globalId c)
      | None \<Rightarrow> if n = ''__proto__'' then ix_proto ix0 else ix_own ix0 n)"
  by (induction cl arbitrary: ix0)
     (auto simp: find_append_case index_put_def Let_def split: option.splits)

lemma nameToClass_update:
  assumes d: "distinct (map ent_globalId (classes d))"
    and c: "c \<in> set (classes d)" and n: "class_getName c = n"
  shows "\<exists>c0\<in>set (classes d). class_getName c0 = n
           \<and> nameToClass (update d) n = Inr (IsClass c0)"
proof -
  let ?ix = "foldl (\<lambda>ix c. index_put ix (class_getName c) (ent_globalId c)) new_Index
               (classes d)"
  obtain c0 where c0: "find (\<lambda>c. class_getName c = n) (rev (classes d)) = Some c0"
    using find_exists[of c "rev (classes d)" "\<lambda>c. class_getName c = n"] c n by auto
  have c0': "c0 \<in> set (classes d)" "class_getName c0 = n"
    using find_Some_in[OF c0] by simp_all
  have r: "(if n = ''__proto__'' then ix_proto ?ix else ix_own ?ix n) = Some (ent_globalId c0)"
    using index_fold[where n = n and ?ix0.0 = new_Index and cl = "classes d"] c0
    by (simp add: Let_def)
  obtain c1 where c1: "find (\<lambda>c. ent_globalId c = ent_globalId c0)
                               (sort_key class_getName (classes d)) = Some c1"
    using find_exists[of c0 "sort_key class_getName (classes d)"
            "\<lambda>c. ent_globalId c = ent_globalId c0"] c0'(1) by auto
  have "c1 \<in> set (classes d)" "ent_globalId c1 = ent_globalId c0"
    using find_Some_in[OF c1] by simp_all
  then have "c1 = c0"
    using d c0'(1) by (auto simp: distinct_map inj_on_def)
  then have "deref (sort_key class_getName (classes d)) (ent_globalId c0) = Some c0"
    using c1 by (simp add: deref_def)
  then have "index_get (sort_key class_getName (classes d)) ?ix n = IsClass c0"
    unfolding index_get_class using r by blast
  then have "nameToClass (update d) n = Inr (IsClass c0)"
    by (simp add: nameToClass_def update_def Let_def)
  then show ?thesis using c0' by blast
qed

lemma assemble_blocks_append:
  "assemble_blocks (xs @ ys) s = assemble_blocks ys (assemble_blocks xs s)"
  by (simp add: assemble_blocks_def)

text \<open>
  C4, as amended. The block \<open>cb\<close> is an accepted class block of the class \<open>baz\<close>: it has no
  \<^verbatim>\<open>@page\<close> and no \<^verbatim>\<open>@return\<close> command and does not extend itself. The block \<open>mb\<close> follows it at
  once and is a method block: its first \<^verbatim>\<open>@method\<close> command names \<open>bar\<close>, and it has no
  \<^verbatim>\<open>@memberof\<close>, \<^verbatim>\<open>@page\<close>, \<^verbatim>\<open>@class\<close>, \<^verbatim>\<open>@file\<close>, \<^verbatim>\<open>@library\<close> or \<^verbatim>\<open>@function\<close> command. Blocks come
  before and after the two such that, at the end of the loop, no method or property entity has
  a class name for which \<^verbatim>\<open>nameToClass\<close> gives a value that is no class entity; by
  \<open>makeEntities_returns\<close> these are the inputs on which \<^verbatim>\<open>makeEntities\<close> returns. Then
  \<^verbatim>\<open>makeEntities\<close> returns a documentation that has a method entity for \<open>mb\<close> with the name \<open>bar\<close>
  and the class name \<open>baz\<close>, and the class entity that the index gives for \<open>baz\<close> is named \<open>baz\<close>
  and holds that method.
\<close>

theorem method_after_class_is_attached:
  assumes cb: "page cb = []" "classs cb = ClassCommand baz # cs" "ret cb = []"
      "\<not> extends_itself cb (ClassCommand baz)"
    and mb: "page mb = []" "classs mb = []" "file' mb = []" "library mb = []" "func mb = []"
      "method' mb = MethodCommand bar # rest" "memberof mb = []"
    and found: "class_names_found (loop_end (bs1 @ cb # mb # bs2) errs g)"
  shows "\<exists>d g'. makeEntities (bs1 @ cb # mb # bs2) errs g = Inr (d, g')
         \<and> (\<exists>m\<in>set (methods d).
               method_getName m = bar \<and> method_getClassName m = Some baz
             \<and> ent_block m = [mb\<lparr> memberof := [MemberofCommand (Some baz)] \<rparr>]
             \<and> (\<exists>c. nameToClass d baz = Inr (IsClass c)
                    \<and> class_getName c = baz \<and> m \<in> set (ce_methodEntities c)))"
proof -
  define s0 where "s0 = \<lparr> st_doc = new_Documentation\<lparr> errors := errs \<rparr>, st_lastClass = None,
                 st_globals = g \<rparr>"
  define sA where "sA = assemble_blocks bs1 s0"
  define sB where "sB = snd (assemble_block cb sA)"
  define sC where "sC = snd (assemble_block mb sB)"
  define s1 where "s1 = assemble_blocks bs2 sC"
  define s2 where "s2 = s1\<lparr> st_doc := update (st_doc s1) \<rparr>"
  have run: "loop_end (bs1 @ cb # mb # bs2) errs g = s1"
    by (simp add: loop_end_def assemble_blocks_append assemble_blocks_Cons s1_def sC_def sB_def
          sA_def s0_def)
  obtain s4 where s4: "post_pass s1 = Inr s4"
    using found post_pass_returns[of s1] unfolding run by blast
  then obtain s3 where s3: "attach_all attach_method s2 (methods (st_doc s2)) = Inr s3"
    and s34: "attach_all attach_property s3 (properties (st_doc s3)) = Inr s4"
    by (auto simp: post_pass_def Let_def s2_def split: sum.splits)
  have mk: "makeEntities (bs1 @ cb # mb # bs2) errs g = Inr (st_doc s4, st_globals s4)"
    using s4 run by (simp add: makeEntities_def loop_end_def Let_def)
  have "ids_ok s0" by (simp add: ids_ok_def s0_def new_Documentation_def)
  then have ok: "ids_ok s1"
    unfolding s1_def sC_def sB_def sA_def
    by (intro assemble_blocks_ids assemble_block_ids)
  obtain e where e: "st_lastClass sB = Some e" "class_getName e = baz"
      "classes (st_doc sB) = classes (st_doc sA) @ [e]"
    using accepted_class_block_step[OF cb, of sA] unfolding sB_def by blast
  obtain m where m: "methods (st_doc sC) = methods (st_doc sB) @ [m]"
      "method_getName m = bar" "method_getClassName m = Some baz"
      "ent_block m = [mb\<lparr> memberof := [MemberofCommand (Some baz)] \<rparr>]"
    using fallback_method_block_step[OF mb e(1,2)] unfolding sC_def by blast
  have "e \<in> set (classes (st_doc sC))"
    using assemble_block_grows[of mb sB] e(3) unfolding sC_def by auto
  then have e1: "e \<in> set (classes (st_doc s1))"
    using assemble_blocks_grows[of bs2 sC] unfolding s1_def by auto
  have m1: "m \<in> set (methods (st_doc s1))"
    using assemble_blocks_grows[of bs2 sC] m(1) unfolding s1_def by auto
  obtain c0 where c0: "class_getName c0 = baz" "nameToClass (st_doc s2) baz = Inr (IsClass c0)"
    using nameToClass_update[OF _ e1 e(2)] ok by (auto simp: ids_ok_def s2_def)
  have key: "js_str (method_getClassName m) = baz"
    using m(3) by (simp add: js_str_def)
  have m2: "m \<in> set (methods (st_doc s2))"
    using m1 by (simp add: s2_def)
  obtain c3 where c3: "nameToClass (st_doc s3) baz = Inr (IsClass c3)"
      "m \<in> set (ce_methodEntities c3)" "grows c0 c3"
    using attach_all_method_adds[OF m2 _ s3, of c0] c0(2) key by auto
  have l34: "later_state s3 s4"
    using attach_all_later[of attach_property, OF attach_property_later s34] .
  obtain c4 where c4: "nameToClass (st_doc s4) baz = Inr (IsClass c4)" "grows c3 c4"
    using nameToClass_later(1)[OF l34 c3(1)] by blast
  have "later_state s2 s3"
    using attach_all_later[of attach_method, OF attach_method_later s3] .
  then have "later_state s2 s4"
    using l34 by (rule later_state_trans)
  then have m4: "m \<in> set (methods (st_doc s4))"
    using m2 by (simp add: later_state_def)
  have "class_getName c4 = baz" "m \<in> set (ce_methodEntities c4)"
    using c0(1) c3 c4(2) by (auto simp: grows_def)
  then show ?thesis
    unfolding mk using m4 m(2,3,4) c4(1) by blast
qed

text \<open>
  The claim as stated fails in two ways. On a block that also has a \<^verbatim>\<open>@function\<close> command the
  function branch comes before the method branch, so the block becomes a function and no
  method entity is made. And when an earlier block has \<^verbatim>\<open>@method x\<close> with \<^verbatim>\<open>@memberof toString\<close>,
  the pass over the methods reads the function \<^verbatim>\<open>toString\<close> from the index, calls its
  \<^verbatim>\<open>addMethod\<close>, and throws before it reaches the method \<^verbatim>\<open>bar\<close>: \<^verbatim>\<open>makeEntities\<close> returns nothing.
\<close>

theorem method_after_class_counterexample:
  "method' function_method_block = [MethodCommand ''bar'']
   \<and> memberof function_method_block = []
   \<and> map_sum id (\<lambda>r. map class_getName (classes (fst r)))
         (makeEntities [class_block ''Baz'' None 1, function_method_block] [] init_Globals)
       = Inr [''Baz'']
   \<and> map_sum id (\<lambda>r. methods (fst r))
         (makeEntities [class_block ''Baz'' None 1, function_method_block] [] init_Globals)
       = Inr []
   \<and> map_sum id (\<lambda>r. map function_getName (functions' (fst r)))
         (makeEntities [class_block ''Baz'' None 1, function_method_block] [] init_Globals)
       = Inr [''foo'']
   \<and> makeEntities [inherited_method_block, class_block ''Baz'' None 1, plain_method_block] []
         init_Globals = Inl TypeError"
  by (simp add: function_method_block_def class_block_def inherited_method_block_def
        plain_method_block_def assembly_eval block_eval
        Entity.defs ClassEntity.defs FunctionEntity.defs MethodEntity.defs function_getName_def)

theorem method_after_class_is_attached_witness:
  "page (class_block ''Baz'' None 1) = []
   \<and> classs (class_block ''Baz'' None 1) = [ClassCommand ''Baz'']
   \<and> ret (class_block ''Baz'' None 1) = []
   \<and> \<not> extends_itself (class_block ''Baz'' None 1) (ClassCommand ''Baz'')
   \<and> page plain_method_block = [] \<and> classs plain_method_block = []
   \<and> file' plain_method_block = [] \<and> library plain_method_block = []
   \<and> func plain_method_block = [] \<and> method' plain_method_block = [MethodCommand ''bar'']
   \<and> memberof plain_method_block = []
   \<and> class_names_found (loop_end [class_block ''Baz'' None 1, plain_method_block] []
                           init_Globals)
   \<and> (\<exists>d g'. makeEntities [class_block ''Baz'' None 1, plain_method_block] [] init_Globals
                = Inr (d, g')
        \<and> (\<exists>m\<in>set (methods d).
              method_getName m = ''bar'' \<and> method_getClassName m = Some ''Baz''
            \<and> (\<exists>c. nameToClass d ''Baz'' = Inr (IsClass c)
                   \<and> class_getName c = ''Baz'' \<and> m \<in> set (ce_methodEntities c))))
   \<and> map_sum id (\<lambda>r. map (\<lambda>c. map method_getName (ce_methodEntities c)) (classes (fst r)))
         (makeEntities [class_block ''Baz'' None 1, plain_method_block] [] init_Globals)
       = Inr [[''bar'']]"
proof -
  have h: "page (class_block ''Baz'' None 1) = []"
    "classs (class_block ''Baz'' None 1) = ClassCommand ''Baz'' # []"
    "ret (class_block ''Baz'' None 1) = []"
    "\<not> extends_itself (class_block ''Baz'' None 1) (ClassCommand ''Baz'')"
    "page plain_method_block = []" "classs plain_method_block = []"
    "file' plain_method_block = []" "library plain_method_block = []"
    "func plain_method_block = []" "method' plain_method_block = MethodCommand ''bar'' # []"
    "memberof plain_method_block = []"
    by (simp_all add: class_block_def plain_method_block_def block_eval extends_itself_def)
  have f: "class_names_found (loop_end [class_block ''Baz'' None 1, plain_method_block] []
                           init_Globals)"
    by (simp add: class_names_found_def class_block_def plain_method_block_def assembly_eval
          block_eval Entity.defs ClassEntity.defs MethodEntity.defs)
  have a: "map_sum id (\<lambda>r. map (\<lambda>c. map method_getName (ce_methodEntities c)) (classes (fst r)))
         (makeEntities [class_block ''Baz'' None 1, plain_method_block] [] init_Globals)
       = Inr [[''bar'']]"
    by (simp add: class_block_def plain_method_block_def assembly_eval block_eval
          Entity.defs ClassEntity.defs MethodEntity.defs addMethod_def)
  have f': "class_names_found (loop_end ([] @ class_block ''Baz'' None 1 # plain_method_block # [])
                           [] init_Globals)"
    using f by simp
  from method_after_class_is_attached[OF h f'] h f a show ?thesis
    by simp blast
qed


end
